theory Spec2Isabelle
  imports Complex_Main "HOL-Library.AList" "HOL-Library.Char_ord" "HOL-Library.List_Lexorder"
    "HOL-Library.Log_Nat"
begin

section \<open>JSON values and the Python operations the scripts apply to them\<close>

text \<open>
  Both scripts keep the store as the value \<^verbatim>\<open>json.load\<close> returns: nested dicts, lists,
  strings, integers, booleans and \<^verbatim>\<open>None\<close>. A dict is an association list in insertion
  order; \<^verbatim>\<open>d[k] = v\<close> is \<open>AList.update\<close> (replace in place, else append),
  \<^verbatim>\<open>d.get(k)\<close> is \<open>map_of\<close>, \<^verbatim>\<open>d.pop(k, None)\<close> is \<open>AList.delete\<close>.
  JSON numbers with a fraction are not part of the model: no operation below reads a field
  the scripts store a float in.
\<close>

datatype jval =
    JNull
  | JBool bool
  | JInt int
  | JStr string
  | JArr "jval list"
  | JObj "(string \<times> jval) list"

type_synonym obj = "(string \<times> jval) list"

text \<open>
  Exits and uncaught exceptions. The first five are the paths that print
  \<^verbatim>\<open>{"success": false, "error": ...}\<close> and call \<^verbatim>\<open>sys.exit(1)\<close>:
  "Task not found", "Goal not found", "Progress must be 0-100", "Task is not recurring",
  "Task must be 100% complete ..." (with the current progress). The others are Python
  exceptions that nothing catches.
\<close>

datatype error =
    TaskNotFound string
  | GoalNotFound string
  | InvalidArgument
  | NotRecurring
  | IncompleteTask jval
  | KeyError string
  | TypeError
  | ValueError
  | AttributeError
  | ZeroDivisionError
  | JSONDecodeError
  | IOError

text \<open>\<^verbatim>\<open>bool(v)\<close>: what \<^verbatim>\<open>if v\<close> and \<^verbatim>\<open>not v\<close> test.\<close>

fun truthy :: "jval \<Rightarrow> bool" where
  "truthy JNull = False"
| "truthy (JBool b) = b"
| "truthy (JInt n) = (n \<noteq> 0)"
| "truthy (JStr s) = (s \<noteq> [])"
| "truthy (JArr xs) = (xs \<noteq> [])"
| "truthy (JObj kvs) = (kvs \<noteq> [])"

text \<open>\<^verbatim>\<open>v[k]\<close> with a string key: only a dict supports it.\<close>

fun py_getitem :: "jval \<Rightarrow> string \<Rightarrow> error + jval" where
  "py_getitem (JObj kvs) k = (case map_of kvs k of None \<Rightarrow> Inl (KeyError k) | Some v \<Rightarrow> Inr v)"
| "py_getitem _ k = Inl TypeError"

text \<open>
  \<^verbatim>\<open>d.get(k, default)\<close> on a dict. On anything else \<^verbatim>\<open>.get\<close> is an AttributeError,
  which is written out where a value that need not be a dict is asked.
\<close>

definition get_or :: "obj \<Rightarrow> string \<Rightarrow> jval \<Rightarrow> jval" where
  "get_or t k d = (case map_of t k of None \<Rightarrow> d | Some v \<Rightarrow> v)"

text \<open>
  \<^verbatim>\<open>for x in v\<close>: a list gives its elements, a dict its keys, a string its characters;
  anything else is not iterable.
\<close>

fun py_iter :: "jval \<Rightarrow> error + jval list" where
  "py_iter (JArr xs) = Inr xs"
| "py_iter (JObj kvs) = Inr (map (\<lambda>kv. JStr (fst kv)) kvs)"
| "py_iter (JStr s) = Inr (map (\<lambda>c. JStr [c]) s)"
| "py_iter _ = Inl TypeError"

text \<open>Integers and booleans are Python's numbers here (\<^verbatim>\<open>True == 1\<close>).\<close>

fun num_of :: "jval \<Rightarrow> int option" where
  "num_of (JInt n) = Some n"
| "num_of (JBool b) = Some (if b then 1 else 0)"
| "num_of _ = None"

section \<open>Time, ids and the files\<close>

text \<open>
  A clock reading is an integer number of microseconds since the epoch; \<open>now k\<close> is what
  the \<open>k\<close>-th call of \<^verbatim>\<open>datetime.now(timezone.utc)\<close> of one run returns. The standard
  library's \<^verbatim>\<open>isoformat()\<close> and \<^verbatim>\<open>strftime("%Y-%m-%d")\<close> are parameters.
\<close>

record dtlib =
  isoformat :: "int \<Rightarrow> string"
  strftime_ymd :: "int \<Rightarrow> string"

definition timedelta_days :: "int \<Rightarrow> int" where
  "timedelta_days d = d * 86400000000"

definition timedelta_weeks :: "int \<Rightarrow> int" where
  "timedelta_weeks w = timedelta_days (7 * w)"

text \<open>\<^verbatim>\<open>datetime.now(timezone.utc).isoformat() + "Z"\<close> at reading \<open>t\<close>.\<close>

definition stamp :: "dtlib \<Rightarrow> int \<Rightarrow> jval" where
  "stamp L t = JStr (isoformat L t @ ''Z'')"

text \<open>\<^verbatim>\<open>generate_id(prefix)\<close>; \<open>hex\<close> is \<^verbatim>\<open>uuid.uuid4().hex\<close>.\<close>

definition generate_id :: "string \<Rightarrow> string \<Rightarrow> string" where
  "generate_id prefix hex = prefix @ ''_'' @ take 8 hex"

text \<open>
  \<^verbatim>\<open>tasks.json\<close>: absent, present but not readable, readable but not JSON, or JSON.
\<close>

datatype datafile = Absent | Unreadable | Unparseable | Parsed jval

text \<open>
  What a run does to the outside, in program order. The texts written to the snapshot and
  to the working buffer are not modelled, only that they are written.
\<close>

datatype effect =
    Warn
  | Backup
  | WalAppend string string string obj
  | Save jval
  | SessionState obj jval
  | BufferAppend string

fun apply_effect :: "datafile \<Rightarrow> effect \<Rightarrow> datafile" where
  "apply_effect f (Save d) = Parsed d"
| "apply_effect f _ = f"

definition apply_effects :: "datafile \<Rightarrow> effect list \<Rightarrow> datafile" where
  "apply_effects f es = foldl apply_effect f es"

section \<open>Phase 1: \<^verbatim>\<open>task_manager_phase1.py\<close>\<close>

definition empty_store :: jval where
  "empty_store = JObj [(''goals'', JArr []), (''tasks'', JArr [])]"

text \<open>\<^verbatim>\<open>load_data\<close> of phase 1, with its warnings and the backup it attempts.\<close>

fun load_data1 :: "datafile \<Rightarrow> effect list \<times> jval" where
  "load_data1 Absent = ([], empty_store)"
| "load_data1 (Parsed (JObj kvs)) =
     (if map_of kvs ''tasks'' = None then ([Warn], empty_store) else ([], JObj kvs))"
| "load_data1 (Parsed _) = ([Warn], empty_store)"
| "load_data1 Unparseable = ([Warn, Backup], empty_store)"
| "load_data1 Unreadable = ([Warn], empty_store)"

text \<open>
  The loop of \<^verbatim>\<open>find_task_by_id\<close>. It returns the task with its position in
  \<^verbatim>\<open>data["tasks"]\<close>: the caller mutates that very dict.
\<close>

fun find_in :: "jval list \<Rightarrow> string \<Rightarrow> nat \<Rightarrow> error + (nat \<times> obj) option" where
  "find_in [] tid i = Inr None"
| "find_in (JObj t # ts) tid i =
     (case map_of t ''id'' of
        None \<Rightarrow> Inl (KeyError ''id'')
      | Some v \<Rightarrow> if v = JStr tid then Inr (Some (i, t)) else find_in ts tid (Suc i))"
| "find_in (_ # ts) tid i = Inl TypeError"

definition find_task_by_id :: "jval \<Rightarrow> string \<Rightarrow> error + (nat \<times> obj) option" where
  "find_task_by_id data task_id =
     (case py_getitem data ''tasks'' of
        Inl e \<Rightarrow> Inl e
      | Inr ts \<Rightarrow> (case py_iter ts of Inl e \<Rightarrow> Inl e | Inr xs \<Rightarrow> find_in xs task_id 0))"

text \<open>The store after the dict at position \<open>i\<close> of \<^verbatim>\<open>data["tasks"]\<close> was mutated to \<open>t\<close>.\<close>

definition set_task :: "jval \<Rightarrow> nat \<Rightarrow> obj \<Rightarrow> jval" where
  "set_task data i t =
     (case data of
        JObj kvs \<Rightarrow>
          (case map_of kvs ''tasks'' of
             Some (JArr xs) \<Rightarrow> JObj (AList.update ''tasks'' (JArr (xs[i := JObj t])) kvs)
           | _ \<Rightarrow> data)
      | _ \<Rightarrow> data)"

text \<open>
  \<^verbatim>\<open>mark_progress(args)\<close> of phase 1. \<open>progress_arg\<close> is the result of
  \<^verbatim>\<open>int(args.progress)\<close>, \<open>None\<close> when it raises ValueError. A task that was found has
  the key \<^verbatim>\<open>id\<close>, so \<^verbatim>\<open>not task\<close> holds only for \<^verbatim>\<open>None\<close>.
\<close>

definition progress_status1 :: "dtlib \<Rightarrow> (nat \<Rightarrow> int) \<Rightarrow> int \<Rightarrow> obj \<Rightarrow> error + obj" where
  "progress_status1 L now progress task =
     (if progress = 100 then
        (case map_of task ''status'' of
           None \<Rightarrow> Inl (KeyError ''status'')
         | Some st \<Rightarrow>
             if st = JStr ''in_progress'' then
               Inr (AList.update ''completed_at'' (stamp L (now 1))
                     (AList.update ''status'' (JStr ''completed'') task))
             else if st = JStr ''pending'' then
               Inr (AList.update ''status'' (JStr ''in_progress'') task)
             else Inr task)
      else if progress > 0 then
        (case map_of task ''status'' of
           None \<Rightarrow> Inl (KeyError ''status'')
         | Some st \<Rightarrow>
             if st = JStr ''pending'' then
               Inr (AList.update ''status'' (JStr ''in_progress'') task)
             else Inr task)
      else Inr task)"

definition mark_progress1 ::
  "dtlib \<Rightarrow> (nat \<Rightarrow> int) \<Rightarrow> datafile \<Rightarrow> string \<Rightarrow> int option \<Rightarrow> effect list \<times> (error + obj)" where
  "mark_progress1 L now f task_id progress_arg =
     (case load_data1 f of (effs, data) \<Rightarrow>
        (case find_task_by_id data task_id of
           Inl e \<Rightarrow> (effs, Inl e)
         | Inr None \<Rightarrow> (effs, Inl (TaskNotFound task_id))
         | Inr (Some (i, task)) \<Rightarrow>
             (case progress_arg of
                None \<Rightarrow> (effs, Inl ValueError)
              | Some progress \<Rightarrow>
                  if \<not> (0 \<le> progress \<and> progress \<le> 100) then (effs, Inl InvalidArgument)
                  else
                    (case progress_status1 L now progress
                            (AList.update ''updated_at'' (stamp L (now 0))
                              (AList.update ''progress'' (JInt progress) task)) of
                       Inl e \<Rightarrow> (effs, Inl e)
                     | Inr task' \<Rightarrow> (effs @ [Save (set_task data i task')], Inr task')))))"

text \<open>
  Python's \<^verbatim>\<open>==\<close> and \<^verbatim>\<open><\<close> on JSON values. Numbers compare by value, strings and
  lists lexicographically (a list by its first pair of unequal elements, else by length),
  dicts are equal when they have the same keys with equal values; every other pairing is
  unequal, and unordered (TypeError). \<^verbatim>\<open>a > b\<close> is \<open>py_lt b a\<close>.
\<close>

fun py_eq :: "jval \<Rightarrow> jval \<Rightarrow> bool"
  and eq_list :: "jval list \<Rightarrow> jval list \<Rightarrow> bool"
  and eq_fields :: "obj \<Rightarrow> obj \<Rightarrow> bool" where
  "py_eq JNull b = (b = JNull)"
| "py_eq (JBool x) b = (num_of b = Some (if x then 1 else 0))"
| "py_eq (JInt n) b = (num_of b = Some n)"
| "py_eq (JStr s) b = (b = JStr s)"
| "py_eq (JArr xs) b = (case b of JArr ys \<Rightarrow> eq_list xs ys | _ \<Rightarrow> False)"
| "py_eq (JObj kvs) b =
     (case b of JObj kvs' \<Rightarrow> length kvs = length kvs' \<and> eq_fields kvs kvs' | _ \<Rightarrow> False)"
| "eq_list [] ys = (ys = [])"
| "eq_list (x # xs) ys = (case ys of [] \<Rightarrow> False | y # ys' \<Rightarrow> py_eq x y \<and> eq_list xs ys')"
| "eq_fields [] kvs' = True"
| "eq_fields (kv # kvs) kvs' =
     (case map_of kvs' (fst kv) of
        None \<Rightarrow> False
      | Some w \<Rightarrow> py_eq (snd kv) w \<and> eq_fields kvs kvs')"

fun py_lt :: "jval \<Rightarrow> jval \<Rightarrow> error + bool"
  and lt_list :: "jval list \<Rightarrow> jval list \<Rightarrow> error + bool" where
  "py_lt (JInt n) b = (case num_of b of None \<Rightarrow> Inl TypeError | Some m \<Rightarrow> Inr (n < m))"
| "py_lt (JBool x) b =
     (case num_of b of None \<Rightarrow> Inl TypeError | Some m \<Rightarrow> Inr ((if x then 1 else 0) < m))"
| "py_lt (JStr s) b = (case b of JStr t \<Rightarrow> Inr (s < t) | _ \<Rightarrow> Inl TypeError)"
| "py_lt (JArr xs) b = (case b of JArr ys \<Rightarrow> lt_list xs ys | _ \<Rightarrow> Inl TypeError)"
| "py_lt JNull b = Inl TypeError"
| "py_lt (JObj kvs) b = Inl TypeError"
| "lt_list [] ys = Inr (ys \<noteq> [])"
| "lt_list (x # xs) ys =
     (case ys of
        [] \<Rightarrow> Inr False
      | y # ys' \<Rightarrow> if py_eq x y then lt_list xs ys' else py_lt x y)"


text \<open>
  \<^verbatim>\<open>next_recurring(args)\<close>. The three clock readings are \<^verbatim>\<open>completed_at\<close>,
  \<^verbatim>\<open>created_at\<close> and the local \<^verbatim>\<open>now\<close>; \<open>hex\<close> is the fresh uuid's hex string.
\<close>

definition next_due :: "jval \<Rightarrow> int \<Rightarrow> int" where
  "next_due recurring now =
     (if recurring = JStr ''daily'' then now + timedelta_days 1
      else if recurring = JStr ''weekly'' then now + timedelta_weeks 1
      else if recurring = JStr ''monthly'' then now + timedelta_days 30
      else now)"

definition clear_completed_fields :: "obj \<Rightarrow> obj" where
  "clear_completed_fields t =
     foldl (\<lambda>t key. AList.delete key t) t
       [''completed_at'', ''last_error'', ''retry_count'', ''blocked_reason'']"

definition next_occurrence :: "dtlib \<Rightarrow> (nat \<Rightarrow> int) \<Rightarrow> string \<Rightarrow> jval \<Rightarrow> obj \<Rightarrow> obj" where
  "next_occurrence L now hex recurring task =
     clear_completed_fields
       (AList.update ''next_due_at'' (stamp L (next_due recurring (now 2)))
         (AList.update ''actual_minutes'' (JInt 0)
           (AList.update ''created_at'' (stamp L (now 1))
             (AList.update ''progress'' (JInt 0)
               (AList.update ''status'' (JStr ''pending'')
                 (AList.update ''id'' (JStr (generate_id ''task'' hex)) task))))))"

text \<open>\<^verbatim>\<open>data["tasks"].append(t)\<close>; reached only when \<^verbatim>\<open>data["tasks"]\<close> is a list.\<close>

definition append_task :: "jval \<Rightarrow> obj \<Rightarrow> jval" where
  "append_task data t =
     (case data of
        JObj kvs \<Rightarrow>
          (case map_of kvs ''tasks'' of
             Some (JArr xs) \<Rightarrow> JObj (AList.update ''tasks'' (JArr (xs @ [JObj t])) kvs)
           | _ \<Rightarrow> data)
      | _ \<Rightarrow> data)"

definition next_recurring ::
  "dtlib \<Rightarrow> (nat \<Rightarrow> int) \<Rightarrow> string \<Rightarrow> datafile \<Rightarrow> string \<Rightarrow> effect list \<times> (error + obj \<times> obj)" where
  "next_recurring L now hex f task_id =
     (case load_data1 f of (effs, data) \<Rightarrow>
        (case find_task_by_id data task_id of
           Inl e \<Rightarrow> (effs, Inl e)
         | Inr None \<Rightarrow> (effs, Inl (TaskNotFound task_id))
         | Inr (Some (i, task)) \<Rightarrow>
             (case map_of task ''recurring'' of
                None \<Rightarrow> (effs, Inl NotRecurring)
              | Some recurring \<Rightarrow>
                  if recurring = JStr ''none'' then (effs, Inl NotRecurring)
                  else
                    (case py_lt (get_or task ''progress'' (JInt 0)) (JInt 100) of
                       Inl e \<Rightarrow> (effs, Inl e)
                     | Inr True \<Rightarrow> (effs, Inl (IncompleteTask (get_or task ''progress'' (JInt 0))))
                     | Inr False \<Rightarrow>
                         (let task' = AList.update ''progress'' (JInt 100)
                                       (AList.update ''completed_at'' (stamp L (now 0))
                                         (AList.update ''status'' (JStr ''completed'') task));
                              next_task = next_occurrence L now hex recurring task'
                          in (effs @ [Save (append_task (set_task data i task') next_task)],
                              Inr (task', next_task)))))))"

text \<open>
  Python floats, for the velocity report. A finite double is the rational it denotes.
  \<open>to_double\<close> rounds a rational to the nearest double (53-bit significand, ties to even);
  the exponent range is not modelled, the quotients below are of list lengths.
  \<^verbatim>\<open>a / b\<close> on integers is the correctly rounded quotient; \<^verbatim>\<open>round(x, n)\<close> rounds the
  exact value of \<open>x\<close> to \<open>n\<close> decimals, ties to even, and converts back.
\<close>

definition round_half_even :: "rat \<Rightarrow> int" where
  "round_half_even x =
     (let f = \<lfloor>x\<rfloor>; r = x - of_int f
      in if r < 1 / 2 then f else if 1 / 2 < r then f + 1 else if even f then f else f + 1)"

definition ilog2 :: "rat \<Rightarrow> int" where
  "ilog2 x =
     (if 1 \<le> x then int (floorlog 2 (nat \<lfloor>x\<rfloor>)) - 1
      else - int (floorlog 2 (nat (\<lceil>1 / x\<rceil> - 1))))"

definition pow2 :: "int \<Rightarrow> rat" where
  "pow2 e = (if 0 \<le> e then 2 ^ nat e else 1 / 2 ^ nat (- e))"

definition to_double :: "rat \<Rightarrow> rat" where
  "to_double x =
     (if x = 0 then 0
      else (let q = pow2 (ilog2 \<bar>x\<bar> - 52) in of_int (round_half_even (x / q)) * q))"

definition float_div :: "rat \<Rightarrow> rat \<Rightarrow> rat" where
  "float_div x y = to_double (x / y)"












section \<open>Phase 2: \<^verbatim>\<open>task_manager_phase2.py\<close>\<close>

text \<open>\<^verbatim>\<open>load_data\<close> of phase 2: no check of the shape, no exception caught.\<close>

fun load_data2 :: "datafile \<Rightarrow> error + jval" where
  "load_data2 Absent = Inr empty_store"
| "load_data2 Unreadable = Inl IOError"
| "load_data2 Unparseable = Inl JSONDecodeError"
| "load_data2 (Parsed d) = Inr d"

text \<open>
  \<^verbatim>\<open>find_goal_by_id(data, goal_id)\<close>; the id looked for is whatever
  \<^verbatim>\<open>task.get("goal_id", "")\<close> gave, compared with \<^verbatim>\<open>==\<close>.
\<close>

fun find_goal_in :: "jval list \<Rightarrow> jval \<Rightarrow> error + jval option" where
  "find_goal_in [] gid = Inr None"
| "find_goal_in (JObj g # gs) gid =
     (case map_of g ''id'' of
        None \<Rightarrow> Inl (KeyError ''id'')
      | Some v \<Rightarrow> if py_eq v gid then Inr (Some (JObj g)) else find_goal_in gs gid)"
| "find_goal_in (_ # gs) gid = Inl TypeError"

definition find_goal_by_id :: "jval \<Rightarrow> jval \<Rightarrow> error + jval option" where
  "find_goal_by_id data goal_id =
     (case py_getitem data ''goals'' of
        Inl e \<Rightarrow> Inl e
      | Inr gs \<Rightarrow> (case py_iter gs of Inl e \<Rightarrow> Inl e | Inr xs \<Rightarrow> find_goal_in xs goal_id))"

text \<open>
  \<^verbatim>\<open>log_to_wal(event_type, content)\<close>, called when \<open>k\<close> readings of the clock were taken:
  one line appended to the WAL file of the day.
\<close>

definition log_to_wal :: "dtlib \<Rightarrow> (nat \<Rightarrow> int) \<Rightarrow> nat \<Rightarrow> string \<Rightarrow> obj \<Rightarrow> effect" where
  "log_to_wal L now k event_type content =
     WalAppend (strftime_ymd L (now (Suc k))) (isoformat L (now k)) event_type content"

text \<open>
  Python's \<^verbatim>\<open>+\<close>, \<^verbatim>\<open>*\<close> and \<^verbatim>\<open>/\<close> where the scripts apply them to stored values:
  a stored value plus an integer, a stored value times an integer, and a quotient of two
  stored values.
\<close>

definition py_add_int :: "jval \<Rightarrow> int \<Rightarrow> error + jval" where
  "py_add_int v m = (case num_of v of None \<Rightarrow> Inl TypeError | Some n \<Rightarrow> Inr (JInt (n + m)))"

fun py_mul_int :: "jval \<Rightarrow> nat \<Rightarrow> error + jval" where
  "py_mul_int (JInt n) m = Inr (JInt (n * int m))"
| "py_mul_int (JBool b) m = Inr (JInt ((if b then 1 else 0) * int m))"
| "py_mul_int (JStr s) m = Inr (JStr (concat (replicate m s)))"
| "py_mul_int (JArr xs) m = Inr (JArr (concat (replicate m xs)))"
| "py_mul_int JNull m = Inl TypeError"
| "py_mul_int (JObj kvs) m = Inl TypeError"

definition py_truediv :: "jval \<Rightarrow> jval \<Rightarrow> error + rat" where
  "py_truediv a b =
     (case (num_of a, num_of b) of
        (Some n, Some m) \<Rightarrow>
          if m = 0 then Inl ZeroDivisionError else Inr (float_div (of_int n) (of_int m))
      | _ \<Rightarrow> Inl TypeError)"

text \<open>
  \<^verbatim>\<open>update_session_state(task, goal, action)\<close>: the snapshot is overwritten, unless the
  comparison or the division in front of the template raises.
\<close>

definition update_session_state :: "obj \<Rightarrow> jval \<Rightarrow> error + effect" where
  "update_session_state task goal =
     (case py_lt (JInt 0) (get_or task ''estimate_minutes'' (JInt 0)) of
        Inl e \<Rightarrow> Inl e
      | Inr False \<Rightarrow> Inr (SessionState task goal)
      | Inr True \<Rightarrow>
          (case py_truediv (get_or task ''actual_minutes'' (JInt 0))
                  (get_or task ''estimate_minutes'' (JInt 0)) of
             Inl e \<Rightarrow> Inl e
           | Inr ratio \<Rightarrow> Inr (SessionState task goal)))"

text \<open>
  The three steps after \<^verbatim>\<open>save_data(data)\<close> that \<^verbatim>\<open>mark_progress\<close>, \<^verbatim>\<open>log_time\<close> and
  \<^verbatim>\<open>mark_blocked\<close> share: look the goal up, write the snapshot if there is one, append to
  the working buffer. \<open>effs\<close> are the effects so far.
\<close>

definition snapshot_and_buffer ::
  "jval \<Rightarrow> obj \<Rightarrow> string \<Rightarrow> effect list \<Rightarrow> effect list \<times> (error + obj)" where
  "snapshot_and_buffer data task kind effs =
     (case find_goal_by_id data (get_or task ''goal_id'' (JStr [])) of
        Inl e \<Rightarrow> (effs, Inl e)
      | Inr None \<Rightarrow> (effs @ [BufferAppend kind], Inr task)
      | Inr (Some goal) \<Rightarrow>
          (case update_session_state task goal of
             Inl e \<Rightarrow> (effs, Inl e)
           | Inr s \<Rightarrow> (effs @ [s, BufferAppend kind], Inr task)))"

text \<open>The \<^verbatim>\<open>if notes:\<close> block; \<^verbatim>\<open>+=\<close> extends a string, or a list by the characters.\<close>

definition add_notes :: "obj \<Rightarrow> string \<Rightarrow> error + obj" where
  "add_notes task notes =
     (if notes = [] then Inr task
      else if truthy (get_or task ''notes'' JNull) then
        (case get_or task ''notes'' JNull of
           JStr s \<Rightarrow> Inr (AList.update ''notes'' (JStr (s @ [CHR 0x0A] @ notes)) task)
         | JArr xs \<Rightarrow>
             Inr (AList.update ''notes'' (JArr (xs @ map (\<lambda>c. JStr [c]) ([CHR 0x0A] @ notes))) task)
         | _ \<Rightarrow> Inl TypeError)
      else Inr (AList.update ''notes'' (JStr notes) task))"

text \<open>\<^verbatim>\<open>mark_progress(task_id, progress, notes)\<close> of phase 2.\<close>

definition progress_status2 :: "int \<Rightarrow> obj \<Rightarrow> obj" where
  "progress_status2 progress task =
     (if progress \<ge> 100 \<and> map_of task ''status'' \<noteq> Some (JStr ''completed'')
      then AList.update ''status'' (JStr ''in_progress'') task
      else if progress > 0 \<and> map_of task ''status'' = Some (JStr ''pending'')
      then AList.update ''status'' (JStr ''in_progress'') task
      else task)"

definition mark_progress2 ::
  "dtlib \<Rightarrow> (nat \<Rightarrow> int) \<Rightarrow> datafile \<Rightarrow> string \<Rightarrow> int \<Rightarrow> string \<Rightarrow> effect list \<times> (error + obj)" where
  "mark_progress2 L now f task_id progress notes =
     (case load_data2 f of
        Inl e \<Rightarrow> ([], Inl e)
      | Inr data \<Rightarrow>
     (case find_task_by_id data task_id of
        Inl e \<Rightarrow> ([], Inl e)
      | Inr None \<Rightarrow> ([], Inl (TaskNotFound task_id))
      | Inr (Some (i, task)) \<Rightarrow>
          (let wal = log_to_wal L now 1 ''PROGRESS_CHANGE''
                       [(''task_id'', JStr task_id),
                        (''old_progress'', get_or task ''progress'' (JInt 0)),
                        (''new_progress'', JInt progress),
                        (''timestamp'', JStr (isoformat L (now 0)))]
           in case add_notes (AList.update ''updated_at'' (stamp L (now 3))
                               (AList.update ''progress'' (JInt progress) task)) notes of
                Inl e \<Rightarrow> ([wal], Inl e)
              | Inr task' \<Rightarrow>
                  (let task'' = progress_status2 progress task';
                       data' = set_task data i task''
                   in snapshot_and_buffer data' task'' ''PROGRESS'' [wal, Save data']))))"

text \<open>
  \<^verbatim>\<open>log_time(task_id, minutes, notes)\<close> of phase 2. Its last block computes the ratio
  of the new total to the estimate for the printed result; only whether it raises is kept.
\<close>

definition time_velocity :: "jval \<Rightarrow> obj \<Rightarrow> error + unit" where
  "time_velocity new_actual task =
     (case py_lt (JInt 0) (get_or task ''estimate_minutes'' (JInt 0)) of
        Inl e \<Rightarrow> Inl e
      | Inr False \<Rightarrow> Inr ()
      | Inr True \<Rightarrow>
          (case py_truediv new_actual (get_or task ''estimate_minutes'' (JInt 0)) of
             Inl e \<Rightarrow> Inl e
           | Inr ratio \<Rightarrow> Inr ()))"

definition log_time2 ::
  "dtlib \<Rightarrow> (nat \<Rightarrow> int) \<Rightarrow> datafile \<Rightarrow> string \<Rightarrow> int \<Rightarrow> string \<Rightarrow> effect list \<times> (error + obj)" where
  "log_time2 L now f task_id minutes notes =
     (case load_data2 f of
        Inl e \<Rightarrow> ([], Inl e)
      | Inr data \<Rightarrow>
     (case find_task_by_id data task_id of
        Inl e \<Rightarrow> ([], Inl e)
      | Inr None \<Rightarrow> ([], Inl (TaskNotFound task_id))
      | Inr (Some (i, task)) \<Rightarrow>
     (case py_add_int (get_or task ''actual_minutes'' (JInt 0)) minutes of
        Inl e \<Rightarrow> ([], Inl e)
      | Inr new_actual \<Rightarrow>
          (let wal = log_to_wal L now 1 ''TIME_LOG''
                       [(''task_id'', JStr task_id),
                        (''minutes_logged'', JInt minutes),
                        (''old_total'', get_or task ''actual_minutes'' (JInt 0)),
                        (''new_total'', new_actual),
                        (''timestamp'', JStr (isoformat L (now 0)))]
           in case add_notes (AList.update ''updated_at'' (stamp L (now 3))
                               (AList.update ''actual_minutes'' new_actual task)) notes of
                Inl e \<Rightarrow> ([wal], Inl e)
              | Inr task' \<Rightarrow>
                  (let task'' =
                         (if map_of task' ''status'' = Some (JStr ''pending'')
                             \<and> py_lt (JInt 0) new_actual = Inr True
                          then AList.update ''status'' (JStr ''in_progress'') task' else task');
                       data' = set_task data i task''
                   in case snapshot_and_buffer data' task'' ''TIME_LOG'' [wal, Save data'] of
                        (effs, Inl e) \<Rightarrow> (effs, Inl e)
                      | (effs, Inr t) \<Rightarrow>
                          (case time_velocity new_actual t of
                             Inl e \<Rightarrow> (effs, Inl e)
                           | Inr velocity \<Rightarrow> (effs, Inr t)))))))"

text \<open>\<^verbatim>\<open>mark_blocked(task_id, reason)\<close> of phase 2.\<close>

definition mark_blocked2 ::
  "dtlib \<Rightarrow> (nat \<Rightarrow> int) \<Rightarrow> datafile \<Rightarrow> string \<Rightarrow> string \<Rightarrow> effect list \<times> (error + obj)" where
  "mark_blocked2 L now f task_id reason =
     (case load_data2 f of
        Inl e \<Rightarrow> ([], Inl e)
      | Inr data \<Rightarrow>
     (case find_task_by_id data task_id of
        Inl e \<Rightarrow> ([], Inl e)
      | Inr None \<Rightarrow> ([], Inl (TaskNotFound task_id))
      | Inr (Some (i, task)) \<Rightarrow>
          (let wal = log_to_wal L now 1 ''STATUS_CHANGE''
                       [(''task_id'', JStr task_id),
                        (''old_status'', get_or task ''status'' (JStr ''pending'')),
                        (''new_status'', JStr ''blocked''),
                        (''reason'', JStr reason),
                        (''timestamp'', JStr (isoformat L (now 0)))];
               task' = AList.update ''updated_at'' (stamp L (now 3))
                        (AList.update ''blocked_reason'' (JStr reason)
                          (AList.update ''status'' (JStr ''blocked'') task));
               data' = set_task data i task'
           in snapshot_and_buffer data' task' ''BLOCKED'' [wal, Save data'])))"

text \<open>
  \<^verbatim>\<open>health_check()\<close>. An issue or a fix is kept with the task id its message names, not
  as the message text. One task is checked with the issues and fixes it adds and the
  number of clock readings taken so far. \<open>time_anomaly\<close> is the condition of check 4 with
  the ratio its message needs, which can raise.
\<close>

datatype issue =
    OrphanedRecurring jval
  | ImpossibleState jval
  | InconsistentCompletion jval
  | TimeAnomaly jval
  | BadDate jval

datatype autofix =
    RemovedRecurring jval
  | SetProgress100 jval
  | AddedCompletedAt jval
  | ResetCompletedAt jval

type_synonym scan = "obj \<times> issue list \<times> autofix list \<times> nat"

definition is_completed :: "obj \<Rightarrow> bool" where
  "is_completed task = (map_of task ''status'' = Some (JStr ''completed''))"

definition check1 :: "jval \<Rightarrow> scan \<Rightarrow> scan" where
  "check1 task_id s =
     (case s of (task, issues, fixes, k) \<Rightarrow>
        if truthy (get_or task ''recurring'' JNull) \<and> \<not> truthy (get_or task ''goal_id'' JNull)
        then (AList.update ''recurring'' JNull task,
              issues @ [OrphanedRecurring task_id], fixes @ [RemovedRecurring task_id], k)
        else s)"

definition check2 :: "jval \<Rightarrow> scan \<Rightarrow> error + scan" where
  "check2 task_id s =
     (case s of (task, issues, fixes, k) \<Rightarrow>
        if is_completed task then
          (case py_lt (get_or task ''progress'' (JInt 100)) (JInt 100) of
             Inl e \<Rightarrow> Inl e
           | Inr True \<Rightarrow>
               Inr (AList.update ''progress'' (JInt 100) task,
                    issues @ [ImpossibleState task_id], fixes @ [SetProgress100 task_id], k)
           | Inr False \<Rightarrow> Inr s)
        else Inr s)"

definition check3 :: "dtlib \<Rightarrow> (nat \<Rightarrow> int) \<Rightarrow> jval \<Rightarrow> scan \<Rightarrow> scan" where
  "check3 L now task_id s =
     (case s of (task, issues, fixes, k) \<Rightarrow>
        if is_completed task \<and> \<not> truthy (get_or task ''completed_at'' JNull)
        then (AList.update ''completed_at'' (stamp L (now k)) task,
              issues @ [InconsistentCompletion task_id], fixes @ [AddedCompletedAt task_id],
              Suc k)
        else s)"

definition time_anomaly :: "obj \<Rightarrow> error + bool" where
  "time_anomaly task =
     (case py_mul_int (get_or task ''estimate_minutes'' (JInt 1)) 10 of
        Inl e \<Rightarrow> Inl e
      | Inr bound \<Rightarrow>
          (case py_lt bound (get_or task ''actual_minutes'' (JInt 0)) of
             Inl e \<Rightarrow> Inl e
           | Inr False \<Rightarrow> Inr False
           | Inr True \<Rightarrow>
               (case py_truediv (get_or task ''actual_minutes'' (JInt 0))
                       (get_or task ''estimate_minutes'' (JInt 1)) of
                  Inl e \<Rightarrow> Inl e
                | Inr ratio \<Rightarrow> Inr True)))"

definition check4 :: "jval \<Rightarrow> scan \<Rightarrow> error + scan" where
  "check4 task_id s =
     (case s of (task, issues, fixes, k) \<Rightarrow>
        (case time_anomaly task of
           Inl e \<Rightarrow> Inl e
         | Inr False \<Rightarrow> Inr s
         | Inr True \<Rightarrow> Inr (task, issues @ [TimeAnomaly task_id], fixes, k)))"

definition check5 :: "dtlib \<Rightarrow> (nat \<Rightarrow> int) \<Rightarrow> jval \<Rightarrow> scan \<Rightarrow> error + scan" where
  "check5 L now task_id s =
     (case s of (task, issues, fixes, k) \<Rightarrow>
        if is_completed task then
          (case py_lt (JStr (isoformat L (now k))) (get_or task ''completed_at'' (JStr [])) of
             Inl e \<Rightarrow> Inl e
           | Inr True \<Rightarrow>
               Inr (AList.update ''completed_at'' (stamp L (now (Suc k))) task,
                    issues @ [BadDate task_id], fixes @ [ResetCompletedAt task_id],
                    Suc (Suc k))
           | Inr False \<Rightarrow> Inr (task, issues, fixes, Suc k))
        else Inr s)"

definition check_task :: "dtlib \<Rightarrow> (nat \<Rightarrow> int) \<Rightarrow> nat \<Rightarrow> jval \<Rightarrow> error + scan" where
  "check_task L now k t =
     (case t of
        JObj task \<Rightarrow>
          (let task_id = get_or task ''id'' (JStr ''unknown'')
           in case check2 task_id (check1 task_id (task, [], [], k)) of
                Inl e \<Rightarrow> Inl e
              | Inr s2 \<Rightarrow>
                  (case check4 task_id (check3 L now task_id s2) of
                     Inl e \<Rightarrow> Inl e
                   | Inr s4 \<Rightarrow> check5 L now task_id s4))
      | _ \<Rightarrow> Inl AttributeError)"

fun health_loop ::
  "dtlib \<Rightarrow> (nat \<Rightarrow> int) \<Rightarrow> nat \<Rightarrow> jval list \<Rightarrow> error + (jval list \<times> issue list \<times> autofix list \<times> nat)" where
  "health_loop L now k [] = Inr ([], [], [], k)"
| "health_loop L now k (t # ts) =
     (case check_task L now k t of
        Inl e \<Rightarrow> Inl e
      | Inr (task, issues, fixes, k') \<Rightarrow>
          (case health_loop L now k' ts of
             Inl e \<Rightarrow> Inl e
           | Inr (ts', issues', fixes', k'') \<Rightarrow>
               Inr (JObj task # ts', issues @ issues', fixes @ fixes', k'')))"

text \<open>The store after the loop mutated the dicts of \<^verbatim>\<open>data["tasks"]\<close> in place.\<close>

definition set_tasks :: "jval \<Rightarrow> jval list \<Rightarrow> jval" where
  "set_tasks data xs =
     (case data of
        JObj kvs \<Rightarrow>
          (case map_of kvs ''tasks'' of
             Some (JArr _) \<Rightarrow> JObj (AList.update ''tasks'' (JArr xs) kvs)
           | _ \<Rightarrow> data)
      | _ \<Rightarrow> data)"

definition health_check ::
  "dtlib \<Rightarrow> (nat \<Rightarrow> int) \<Rightarrow> datafile \<Rightarrow> effect list \<times> (error + issue list \<times> autofix list)" where
  "health_check L now f =
     (case load_data2 f of
        Inl e \<Rightarrow> ([], Inl e)
      | Inr data \<Rightarrow>
     (case py_getitem data ''tasks'' of
        Inl e \<Rightarrow> ([], Inl e)
      | Inr ts \<Rightarrow>
     (case py_iter ts of
        Inl e \<Rightarrow> ([], Inl e)
      | Inr xs \<Rightarrow>
     (case health_loop L now 0 xs of
        Inl e \<Rightarrow> ([], Inl e)
      | Inr (xs', issues, fixes, k) \<Rightarrow>
          ((if fixes \<noteq> [] then [Save (set_tasks data xs')] else [])
           @ [log_to_wal L now (Suc k) ''HEALTH_CHECK''
                [(''issues_found'', JInt (int (length issues))),
                 (''auto_fixes_applied'', JInt (int (length fixes))),
                 (''timestamp'', JStr (isoformat L (now k)))]],
           Inr (issues, fixes))))))"

section \<open>Example inputs\<close>

text \<open>
  A clock that starts on 2026-11-03 at 12:00:00 UTC and advances by a second per reading
  (it stops after nine; no example reads more), the same clock a day later, and stand-ins
  for the two library functions: they give what \<^verbatim>\<open>isoformat()\<close> and
  \<^verbatim>\<open>strftime("%Y-%m-%d")\<close> give at the whole seconds from 12:00:00 to 12:00:09 of these
  two days.
\<close>

definition ex_t0 :: int where
  "ex_t0 = 1793707200000000"

definition ex_lib :: dtlib where
  "ex_lib =
     \<lparr>isoformat =
        (\<lambda>t. if t < ex_t0 + timedelta_days 1
             then ''2026-11-03T12:00:0''
                  @ [''0123456789'' ! nat ((t - ex_t0) div 1000000 mod 10)] @ ''+00:00''
             else ''2026-11-04T12:00:0''
                  @ [''0123456789'' ! nat ((t - ex_t0 - timedelta_days 1) div 1000000 mod 10)]
                  @ ''+00:00''),
      strftime_ymd = (\<lambda>t. if t < ex_t0 + timedelta_days 1 then ''2026-11-03''
                            else ''2026-11-04'')\<rparr>"

definition ex_now :: "nat \<Rightarrow> int" where
  "ex_now k = ex_t0 + 1000000 * int (min k 9)"

definition ex_next_day :: "nat \<Rightarrow> int" where
  "ex_next_day k = ex_t0 + timedelta_days 1 + 1000000 * int (min k 9)"

definition ex_task :: "string \<Rightarrow> int \<Rightarrow> obj" where
  "ex_task st p =
     [(''id'', JStr ''t1''), (''goal_id'', JStr ''g1''), (''title'', JStr ''Write report''),
      (''status'', JStr st), (''progress'', JInt p)]"

definition ex_store :: "obj list \<Rightarrow> jval" where
  "ex_store ts =
     JObj [(''goals'', JArr [JObj [(''id'', JStr ''g1''), (''title'', JStr ''Ship'')]]),
           (''tasks'', JArr (map JObj ts))]"

text \<open>
  The order the write-ahead discipline asks of a run: of the appends to the WAL and the
  saves of the store, the first is an append.
\<close>

fun wal_before_save :: "effect list \<Rightarrow> bool" where
  "wal_before_save [] = True"
| "wal_before_save (WalAppend d ts ev c # es) = True"
| "wal_before_save (Save d # es) = False"
| "wal_before_save (_ # es) = wal_before_save es"


definition ex_recurring :: "jval \<Rightarrow> int \<Rightarrow> obj" where
  "ex_recurring r p = ex_task ''in_progress'' p @ [(''recurring'', r)]"

definition ex_hex :: string where
  "ex_hex = ''3f2a9c1e5b7d4e0a8c6f1b2d3e4f5a6b''"



section \<open>The velocity report as the specification words it\<close>






section \<open>What the health check leaves behind\<close>

text \<open>
  A task on which a scan whose clock is \<open>now\<close> finds nothing to repair and does not raise:
  not an orphaned recurring task, and if completed then with a progress that is not below
  100 and a \<^verbatim>\<open>completed_at\<close> that is a non-empty string not after any reading of the
  clock; and the time check does not raise.
\<close>

definition settled :: "dtlib \<Rightarrow> (nat \<Rightarrow> int) \<Rightarrow> obj \<Rightarrow> bool" where
  "settled L now task =
     (\<not> (truthy (get_or task ''recurring'' JNull) \<and> \<not> truthy (get_or task ''goal_id'' JNull))
      \<and> (is_completed task \<longrightarrow>
            py_lt (get_or task ''progress'' (JInt 100)) (JInt 100) = Inr False
          \<and> truthy (get_or task ''completed_at'' JNull)
          \<and> (\<forall>j. py_lt (JStr (isoformat L (now j))) (get_or task ''completed_at'' (JStr []))
                     = Inr False))
      \<and> (\<exists>b. time_anomaly task = Inr b))"

section \<open>Finding a task and writing it back\<close>

lemma find_in_Some:
  "find_in xs tid k = Inr (Some (i, t)) \<Longrightarrow>
     k \<le> i \<and> i - k < length xs \<and> xs ! (i - k) = JObj t \<and> map_of t ''id'' = Some (JStr tid)"
proof (induction xs tid k rule: find_in.induct)
  case (2 t ts tid i')
  then show ?case
    by (auto split: option.splits if_splits simp: nth_Cons' Suc_diff_le)
qed simp_all

lemma find_in_keys: "find_in (map (\<lambda>kv. JStr (fst kv)) kvs) tid k \<noteq> Inr (Some p)"
  by (cases kvs) simp_all

lemma find_in_chars: "find_in (map (\<lambda>c. JStr [c]) s) tid k \<noteq> Inr (Some p)"
  by (cases s) simp_all

text \<open>A task is only ever found in a store that is a dict whose \<^verbatim>\<open>tasks\<close> is a list.\<close>

lemma find_task_by_id_Some:
  assumes "find_task_by_id data tid = Inr (Some (i, t))"
  shows "\<exists>kvs xs. data = JObj kvs \<and> map_of kvs ''tasks'' = Some (JArr xs) \<and> i < length xs
           \<and> xs ! i = JObj t \<and> map_of t ''id'' = Some (JStr tid)
           \<and> find_in xs tid 0 = Inr (Some (i, t))"
proof -
  obtain kvs where d: "data = JObj kvs"
    using assms by (cases data) (simp_all add: find_task_by_id_def)
  obtain ts where ts: "map_of kvs ''tasks'' = Some ts"
    using assms d by (cases "map_of kvs ''tasks''") (simp_all add: find_task_by_id_def)
  obtain xs where xs: "ts = JArr xs"
    using assms d ts
    by (cases ts) (simp_all add: find_task_by_id_def find_in_keys find_in_chars)
  have f: "find_in xs tid 0 = Inr (Some (i, t))"
    using assms d ts xs by (simp add: find_task_by_id_def)
  from find_in_Some[OF f] show ?thesis using d ts xs f by auto
qed

lemma find_in_update:
  "find_in xs tid k = Inr (Some (i, t)) \<Longrightarrow> map_of t' ''id'' = Some (JStr tid) \<Longrightarrow>
     find_in (xs[i - k := JObj t']) tid k = Inr (Some (i, t'))"
proof (induction xs tid k rule: find_in.induct)
  case (2 t0 ts tid j)
  show ?case
  proof (cases "map_of t0 ''id'' = Some (JStr tid)")
    case True
    with 2 show ?thesis by simp
  next
    case False
    with 2(2) obtain v where v: "map_of t0 ''id'' = Some v" "v \<noteq> JStr tid"
      and r: "find_in ts tid (Suc j) = Inr (Some (i, t))"
      by (auto split: option.splits if_splits)
    from find_in_Some[OF r] have "Suc j \<le> i" by simp
    then obtain m where m: "i - j = Suc m" "i - Suc j = m"
      by (metis Suc_diff_le diff_Suc_Suc)
    from 2(1)[OF v(1) v(2) r 2(3)] show ?thesis using v m by simp
  qed
qed simp_all

lemma find_task_by_id_set_task:
  assumes "find_task_by_id data tid = Inr (Some (i, t))" and "map_of t' ''id'' = Some (JStr tid)"
  shows "find_task_by_id (set_task data i t') tid = Inr (Some (i, t'))"
proof -
  from find_task_by_id_Some[OF assms(1)] obtain kvs xs where
    d: "data = JObj kvs" "map_of kvs ''tasks'' = Some (JArr xs)"
       "find_in xs tid 0 = Inr (Some (i, t))"
    by blast
  from find_in_update[OF d(3) assms(2)] show ?thesis
    using d by (simp add: set_task_def find_task_by_id_def update_conv')
qed

lemma load_data1_found:
  "find_task_by_id data tid = Inr (Some (i, t)) \<Longrightarrow> load_data1 (Parsed data) = ([], data)"
  by (auto dest!: find_task_by_id_Some)

lemma snapshot_and_buffer_effs:
  "\<exists>effs' r. snapshot_and_buffer d t k effs = (effs @ effs', r)"
  by (auto simp: snapshot_and_buffer_def split: sum.splits option.splits)

section \<open>Progress updates\<close>

lemma mark_progress1_in_progress:
  assumes found: "find_task_by_id data tid = Inr (Some (i, t))"
    and st: "map_of t ''status'' = Some (JStr ''in_progress'')"
  shows "\<exists>t'. mark_progress1 L now (Parsed data) tid (Some 100)
                 = ([Save (set_task data i t')], Inr t')
           \<and> find_task_by_id (set_task data i t') tid = Inr (Some (i, t'))
           \<and> map_of t' ''status'' = Some (JStr ''completed'')
           \<and> map_of t' ''completed_at'' = Some (stamp L (now 1))
           \<and> map_of t' ''progress'' = Some (JInt 100)"
proof -
  let ?t' = "AList.update ''completed_at'' (stamp L (now 1))
               (AList.update ''status'' (JStr ''completed'')
                 (AList.update ''updated_at'' (stamp L (now 0))
                   (AList.update ''progress'' (JInt 100) t)))"
  have id: "map_of ?t' ''id'' = Some (JStr tid)"
    using find_task_by_id_Some[OF found] by (auto simp: update_conv')
  have run: "mark_progress1 L now (Parsed data) tid (Some 100)
               = ([Save (set_task data i ?t')], Inr ?t')"
    using found st
    by (simp add: mark_progress1_def load_data1_found[OF found] progress_status1_def
          update_conv')
  show ?thesis
    using run find_task_by_id_set_task[OF found id]
    by (intro exI[of _ ?t']) (simp add: update_conv')
qed

lemma mark_progress1_pending:
  assumes found: "find_task_by_id data tid = Inr (Some (i, t))"
    and st: "map_of t ''status'' = Some (JStr ''pending'')"
  shows "\<exists>t'. mark_progress1 L now (Parsed data) tid (Some 100)
                 = ([Save (set_task data i t')], Inr t')
           \<and> find_task_by_id (set_task data i t') tid = Inr (Some (i, t'))
           \<and> map_of t' ''status'' = Some (JStr ''in_progress'')
           \<and> map_of t' ''completed_at'' = map_of t ''completed_at''
           \<and> map_of t' ''progress'' = Some (JInt 100)"
proof -
  let ?t' = "AList.update ''status'' (JStr ''in_progress'')
               (AList.update ''updated_at'' (stamp L (now 0))
                 (AList.update ''progress'' (JInt 100) t))"
  have id: "map_of ?t' ''id'' = Some (JStr tid)"
    using find_task_by_id_Some[OF found] by (auto simp: update_conv')
  have run: "mark_progress1 L now (Parsed data) tid (Some 100)
               = ([Save (set_task data i ?t')], Inr ?t')"
    using found st
    by (simp add: mark_progress1_def load_data1_found[OF found] progress_status1_def
          update_conv')
  show ?thesis
    using run find_task_by_id_set_task[OF found id]
    by (intro exI[of _ ?t']) (simp add: update_conv')
qed

lemma mark_progress2_pending:
  assumes found: "find_task_by_id data tid = Inr (Some (i, t))"
    and st: "map_of t ''status'' = Some (JStr ''pending'')"
  shows "\<exists>t' wal effs r. mark_progress2 L now (Parsed data) tid 100 []
                 = (wal # Save (set_task data i t') # effs, r)
           \<and> find_task_by_id (set_task data i t') tid = Inr (Some (i, t'))
           \<and> map_of t' ''status'' = Some (JStr ''in_progress'')
           \<and> map_of t' ''completed_at'' = map_of t ''completed_at''
           \<and> map_of t' ''progress'' = Some (JInt 100)"
proof -
  let ?t' = "AList.update ''status'' (JStr ''in_progress'')
               (AList.update ''updated_at'' (stamp L (now 3))
                 (AList.update ''progress'' (JInt 100) t))"
  let ?wal = "log_to_wal L now 1 ''PROGRESS_CHANGE''
                [(''task_id'', JStr tid), (''old_progress'', get_or t ''progress'' (JInt 0)),
                 (''new_progress'', JInt 100), (''timestamp'', JStr (isoformat L (now 0)))]"
  have id: "map_of ?t' ''id'' = Some (JStr tid)"
    using find_task_by_id_Some[OF found] by (auto simp: update_conv')
  obtain effs r where sb:
    "snapshot_and_buffer (set_task data i ?t') ?t' ''PROGRESS'' [?wal, Save (set_task data i ?t')]
       = ([?wal, Save (set_task data i ?t')] @ effs, r)"
    using snapshot_and_buffer_effs by blast
  have run: "mark_progress2 L now (Parsed data) tid 100 []
               = (?wal # Save (set_task data i ?t') # effs, r)"
    using found st sb
    by (simp add: mark_progress2_def add_notes_def progress_status2_def update_conv' Let_def)
  show ?thesis
    using run find_task_by_id_set_task[OF found id]
    by (intro exI[of _ ?t'] exI[of _ ?wal] exI[of _ effs] exI[of _ r]) (simp add: update_conv')
qed

lemmas ex_defs = ex_store_def ex_task_def ex_lib_def ex_now_def ex_t0_def timedelta_days_def
  timedelta_weeks_def stamp_def

lemma ex_found:
  "find_task_by_id (ex_store [ex_task st p]) ''t1'' = Inr (Some (0, ex_task st p))"
  by (simp add: find_task_by_id_def ex_store_def ex_task_def)

text \<open>
  C1, as the code has it. A call with progress 100 completes a task that is
  \<^verbatim>\<open>in_progress\<close> (phase 1): the saved task has status \<^verbatim>\<open>completed\<close>, a
  \<^verbatim>\<open>completed_at\<close> stamp and progress 100. On a task that is \<^verbatim>\<open>pending\<close> the same
  call stores progress 100 and does not complete it, but the status does not stay
  \<^verbatim>\<open>pending\<close>: in both phases it becomes \<^verbatim>\<open>in_progress\<close>, and \<^verbatim>\<open>completed_at\<close> is
  left as it was.
\<close>

theorem mark_progress_100:
  assumes found: "find_task_by_id data tid = Inr (Some (i, t))"
  shows "(map_of t ''status'' = Some (JStr ''in_progress'') \<longrightarrow>
            (\<exists>t'. mark_progress1 L now (Parsed data) tid (Some 100)
                     = ([Save (set_task data i t')], Inr t')
               \<and> find_task_by_id (set_task data i t') tid = Inr (Some (i, t'))
               \<and> map_of t' ''status'' = Some (JStr ''completed'')
               \<and> map_of t' ''completed_at'' = Some (stamp L (now 1))
               \<and> map_of t' ''progress'' = Some (JInt 100)))
       \<and> (map_of t ''status'' = Some (JStr ''pending'') \<longrightarrow>
            (\<exists>t'. mark_progress1 L now (Parsed data) tid (Some 100)
                     = ([Save (set_task data i t')], Inr t')
               \<and> find_task_by_id (set_task data i t') tid = Inr (Some (i, t'))
               \<and> map_of t' ''status'' = Some (JStr ''in_progress'')
               \<and> map_of t' ''completed_at'' = map_of t ''completed_at''
               \<and> map_of t' ''progress'' = Some (JInt 100))
          \<and> (\<exists>t' wal effs r. mark_progress2 L now (Parsed data) tid 100 []
                     = (wal # Save (set_task data i t') # effs, r)
               \<and> find_task_by_id (set_task data i t') tid = Inr (Some (i, t'))
               \<and> map_of t' ''status'' = Some (JStr ''in_progress'')
               \<and> map_of t' ''completed_at'' = map_of t ''completed_at''
               \<and> map_of t' ''progress'' = Some (JInt 100)))"
  using mark_progress1_in_progress[OF found] mark_progress1_pending[OF found]
    mark_progress2_pending[OF found]
  by blast

text \<open>
  Witness for C1: the theorem at a store with one task, once \<^verbatim>\<open>in_progress\<close> and once
  \<^verbatim>\<open>pending\<close>.
\<close>

theorem mark_progress_100_witness:
  "find_task_by_id (ex_store [ex_task ''in_progress'' 40]) ''t1''
     = Inr (Some (0, ex_task ''in_progress'' 40))
   \<and> map_of (ex_task ''in_progress'' 40) ''status'' = Some (JStr ''in_progress'')
   \<and> (\<exists>t'. mark_progress1 ex_lib ex_now (Parsed (ex_store [ex_task ''in_progress'' 40])) ''t1''
              (Some 100)
            = ([Save (set_task (ex_store [ex_task ''in_progress'' 40]) 0 t')], Inr t')
          \<and> map_of t' ''status'' = Some (JStr ''completed'')
          \<and> map_of t' ''completed_at'' = Some (JStr ''2026-11-03T12:00:01+00:00Z''))
   \<and> find_task_by_id (ex_store [ex_task ''pending'' 40]) ''t1''
     = Inr (Some (0, ex_task ''pending'' 40))
   \<and> map_of (ex_task ''pending'' 40) ''status'' = Some (JStr ''pending'')
   \<and> (\<exists>t'. mark_progress1 ex_lib ex_now (Parsed (ex_store [ex_task ''pending'' 40])) ''t1''
              (Some 100)
            = ([Save (set_task (ex_store [ex_task ''pending'' 40]) 0 t')], Inr t')
          \<and> map_of t' ''status'' = Some (JStr ''in_progress'')
          \<and> map_of t' ''completed_at'' = None)"
proof -
  have s1: "map_of (ex_task ''in_progress'' 40) ''status'' = Some (JStr ''in_progress'')"
    and s2: "map_of (ex_task ''pending'' 40) ''status'' = Some (JStr ''pending'')"
    and c2: "map_of (ex_task ''pending'' 40) ''completed_at'' = None"
    by (simp_all add: ex_task_def)
  have st: "stamp ex_lib (ex_now 1) = JStr ''2026-11-03T12:00:01+00:00Z''"
    by (simp add: ex_defs)
  show ?thesis
    using mark_progress_100[OF ex_found, of "''in_progress''" 40 ex_lib ex_now]
      mark_progress_100[OF ex_found, of "''pending''" 40 ex_lib ex_now]
      s1 s2 c2 st ex_found
    by (simp only: simp_thms) blast
qed

text \<open>
  C1 as the spec words it fails: on a \<^verbatim>\<open>pending\<close> task, progress 100 does not leave
  the status unchanged; phase 1 saves the task as \<^verbatim>\<open>in_progress\<close>.
\<close>

theorem mark_progress_pending_counterexample:
  "find_task_by_id (ex_store [ex_task ''pending'' 40]) ''t1''
     = Inr (Some (0, ex_task ''pending'' 40))
   \<and> map_of (ex_task ''pending'' 40) ''status'' = Some (JStr ''pending'')
   \<and> mark_progress1 ex_lib ex_now (Parsed (ex_store [ex_task ''pending'' 40])) ''t1'' (Some 100)
     = ([Save (ex_store
          [[(''id'', JStr ''t1''), (''goal_id'', JStr ''g1''), (''title'', JStr ''Write report''),
            (''status'', JStr ''in_progress''), (''progress'', JInt 100),
            (''updated_at'', JStr ''2026-11-03T12:00:00+00:00Z'')]])],
        Inr [(''id'', JStr ''t1''), (''goal_id'', JStr ''g1''), (''title'', JStr ''Write report''),
            (''status'', JStr ''in_progress''), (''progress'', JInt 100),
            (''updated_at'', JStr ''2026-11-03T12:00:00+00:00Z'')])"
  by (simp add: mark_progress1_def find_task_by_id_def set_task_def progress_status1_def ex_defs)

section \<open>Range check of the progress\<close>

lemma mark_progress1_out_of_range:
  assumes "find_task_by_id data tid = Inr (Some (i, t))" and "p < 0 \<or> 100 < p"
  shows "mark_progress1 L now (Parsed data) tid (Some p) = ([], Inl InvalidArgument)"
  using assms by (auto simp: mark_progress1_def load_data1_found[OF assms(1)])

text \<open>
  C3 asks that a progress below 0 or above 100 is refused and the store left alone. Phase 1
  does so (\<open>mark_progress1_out_of_range\<close>). Phase 2's \<^verbatim>\<open>mark_progress\<close>, documented
  as "Mark task progress (0-100%)", has no such check: called with 150 it logs, stores
  progress 150 and saves.
\<close>

theorem mark_progress2_out_of_range:
  "find_task_by_id (ex_store [ex_task ''pending'' 40]) ''t1''
     = Inr (Some (0, ex_task ''pending'' 40))
   \<and> apply_effects (Parsed (ex_store [ex_task ''pending'' 40]))
        (fst (mark_progress2 ex_lib ex_now (Parsed (ex_store [ex_task ''pending'' 40])) ''t1'' 150 []))
     = Parsed (ex_store
          [[(''id'', JStr ''t1''), (''goal_id'', JStr ''g1''), (''title'', JStr ''Write report''),
            (''status'', JStr ''in_progress''), (''progress'', JInt 150),
            (''updated_at'', JStr ''2026-11-03T12:00:03+00:00Z'')]])
   \<and> snd (mark_progress2 ex_lib ex_now (Parsed (ex_store [ex_task ''pending'' 40])) ''t1'' 150 [])
     = Inr [(''id'', JStr ''t1''), (''goal_id'', JStr ''g1''), (''title'', JStr ''Write report''),
            (''status'', JStr ''in_progress''), (''progress'', JInt 150),
            (''updated_at'', JStr ''2026-11-03T12:00:03+00:00Z'')]"
  by (simp add: mark_progress2_def find_task_by_id_def set_task_def progress_status2_def
        add_notes_def snapshot_and_buffer_def find_goal_by_id_def update_session_state_def
        get_or_def log_to_wal_def apply_effects_def py_truediv_def Let_def ex_defs)

section \<open>Write-ahead order\<close>

lemma wal_before_save_snapshot:
  "wal_before_save (fst (snapshot_and_buffer d t k (WalAppend a b ev c # es)))"
  by (auto simp: snapshot_and_buffer_def split: sum.splits option.splits)

lemma mark_progress2_wal_first:
  "wal_before_save (fst (mark_progress2 L now f tid p notes))"
  by (auto simp: mark_progress2_def Let_def wal_before_save_snapshot log_to_wal_def
        split: sum.splits option.splits prod.splits)

lemma mark_blocked2_wal_first:
  "wal_before_save (fst (mark_blocked2 L now f tid reason))"
  by (auto simp: mark_blocked2_def Let_def wal_before_save_snapshot log_to_wal_def
        split: sum.splits option.splits prod.splits)

lemma log_time2_tail:
  "fst (case sb of
          (effs, Inl e) \<Rightarrow> (effs, Inl e)
        | (effs, Inr t) \<Rightarrow>
            (case time_velocity new_actual t of
               Inl e \<Rightarrow> (effs, Inl e)
             | Inr velocity \<Rightarrow> (effs, Inr t))) = fst sb"
  by (simp split: prod.splits sum.splits)

lemma log_time2_wal_first:
  "wal_before_save (fst (log_time2 L now f tid m notes))"
  unfolding log_time2_def Let_def
  by (simp add: log_time2_tail wal_before_save_snapshot log_to_wal_def
        split: sum.splits option.splits prod.splits)

text \<open>
  C2 asks that the WAL append of an operation comes before its save of the store. The three
  task operations of phase 2 keep that order (the three lemmas above). \<^verbatim>\<open>health_check\<close>
  does not: when it has fixes it saves the repaired store first and appends its
  \<^verbatim>\<open>HEALTH_CHECK\<close> record afterwards.
\<close>

theorem health_check_saves_before_wal:
  "health_check ex_lib ex_now (Parsed (ex_store [ex_task ''completed'' 40]))
     = ([Save (ex_store
          [[(''id'', JStr ''t1''), (''goal_id'', JStr ''g1''), (''title'', JStr ''Write report''),
            (''status'', JStr ''completed''), (''progress'', JInt 100),
            (''completed_at'', JStr ''2026-11-03T12:00:00+00:00Z'')]]),
         WalAppend ''2026-11-03'' ''2026-11-03T12:00:03+00:00'' ''HEALTH_CHECK''
           [(''issues_found'', JInt 2), (''auto_fixes_applied'', JInt 2),
            (''timestamp'', JStr ''2026-11-03T12:00:02+00:00'')]],
        Inr ([ImpossibleState (JStr ''t1''), InconsistentCompletion (JStr ''t1'')],
             [SetProgress100 (JStr ''t1''), AddedCompletedAt (JStr ''t1'')]))
   \<and> \<not> wal_before_save
         (fst (health_check ex_lib ex_now (Parsed (ex_store [ex_task ''completed'' 40]))))"
  by (simp add: health_check_def check_task_def check1_def check2_def check3_def check4_def
        check5_def time_anomaly_def is_completed_def get_or_def set_tasks_def log_to_wal_def
        py_truediv_def Let_def ex_defs)

section \<open>Loading\<close>

lemma load_data1_malformed:
  assumes "(\<forall>kvs. d \<noteq> JObj kvs) \<or> (\<exists>kvs. d = JObj kvs \<and> map_of kvs ''tasks'' = None)"
  shows "load_data1 (Parsed d) = ([Warn], empty_store)"
  using assms by (cases d) auto

lemma load_data1_never_fails:
  "load_data1 Absent = ([], empty_store)"
  "snd (load_data1 Unparseable) = empty_store" "snd (load_data1 Unreadable) = empty_store"
  by simp_all

text \<open>
  C6 asks that a malformed blob loads as the empty default store and never fails. Phase 1's
  \<^verbatim>\<open>load_data\<close> does that (the two lemmas above). Phase 2's \<^verbatim>\<open>load_data\<close> returns
  whatever was parsed: a list, or a dict without \<^verbatim>\<open>tasks\<close>, comes back as it is, and the
  operation that loaded it dies on \<^verbatim>\<open>data["tasks"]\<close>.
\<close>

theorem load_data2_malformed:
  "load_data2 (Parsed (JArr [])) = Inr (JArr [])
   \<and> load_data2 (Parsed (JObj [(''goals'', JArr [])])) = Inr (JObj [(''goals'', JArr [])])
   \<and> JArr [] \<noteq> empty_store \<and> JObj [(''goals'', JArr [])] \<noteq> empty_store
   \<and> health_check ex_lib ex_now (Parsed (JArr [])) = ([], Inl TypeError)
   \<and> health_check ex_lib ex_now (Parsed (JObj [(''goals'', JArr [])])) = ([], Inl (KeyError ''tasks''))
   \<and> mark_progress2 ex_lib ex_now (Parsed (JArr [])) ''t1'' 50 [] = ([], Inl TypeError)"
  by (simp add: empty_store_def health_check_def mark_progress2_def find_task_by_id_def)

section \<open>Blocking\<close>







section \<open>Recurring tasks\<close>

lemma map_of_clear_completed_fields:
  "map_of (clear_completed_fields t) k
     = (if k \<in> {''completed_at'', ''last_error'', ''retry_count'', ''blocked_reason''}
        then None else map_of t k)"
  by (simp add: clear_completed_fields_def delete_conv')


lemma next_recurring_accepted:
  assumes found: "find_task_by_id data tid = Inr (Some (i, t))"
    and r: "map_of t ''recurring'' = Some r" "r \<noteq> JStr ''none''"
    and p: "py_lt (get_or t ''progress'' (JInt 0)) (JInt 100) = Inr False"
  shows "next_recurring L now hex (Parsed data) tid
           = ([Save (append_task
                 (set_task data i
                    (AList.update ''progress'' (JInt 100)
                      (AList.update ''completed_at'' (stamp L (now 0))
                        (AList.update ''status'' (JStr ''completed'') t))))
                 (next_occurrence L now hex r
                    (AList.update ''progress'' (JInt 100)
                      (AList.update ''completed_at'' (stamp L (now 0))
                        (AList.update ''status'' (JStr ''completed'') t)))))],
              Inr (AList.update ''progress'' (JInt 100)
                     (AList.update ''completed_at'' (stamp L (now 0))
                       (AList.update ''status'' (JStr ''completed'') t)),
                   next_occurrence L now hex r
                     (AList.update ''progress'' (JInt 100)
                       (AList.update ''completed_at'' (stamp L (now 0))
                         (AList.update ''status'' (JStr ''completed'') t)))))"
  using found r p by (simp add: next_recurring_def load_data1_found[OF found] Let_def)


lemma next_occurrence_fields:
  "map_of (next_occurrence L now hex r t) ''progress'' = Some (JInt 0)"
  "map_of (next_occurrence L now hex r t) ''status'' = Some (JStr ''pending'')"
  "map_of (next_occurrence L now hex r t) ''actual_minutes'' = Some (JInt 0)"
  "map_of (next_occurrence L now hex r t) ''id'' = Some (JStr (generate_id ''task'' hex))"
  "map_of (next_occurrence L now hex r t) ''created_at'' = Some (stamp L (now 1))"
  "map_of (next_occurrence L now hex r t) ''next_due_at'' = Some (stamp L (next_due r (now 2)))"
  "map_of (next_occurrence L now hex r t) ''completed_at'' = None"
  by (simp_all add: next_occurrence_def map_of_clear_completed_fields update_conv')


lemma ex_recurring_found:
  "find_task_by_id (ex_store [ex_recurring r p]) ''t1'' = Inr (Some (0, ex_recurring r p))"
  by (simp add: find_task_by_id_def ex_store_def ex_task_def ex_recurring_def)


text \<open>
  C7. When \<^verbatim>\<open>next_recurring\<close> is accepted, the successor's \<^verbatim>\<open>next_due_at\<close> is the stamp
  of the local \<^verbatim>\<open>now\<close> (the third clock reading) plus one day for \<^verbatim>\<open>daily\<close>, seven days
  for \<^verbatim>\<open>weekly\<close>, thirty days for \<^verbatim>\<open>monthly\<close>, and plus nothing for any other value of
  \<^verbatim>\<open>recurring\<close>; a day is 86400000000 microseconds.
\<close>

theorem next_recurring_due:
  assumes found: "find_task_by_id data tid = Inr (Some (i, t))"
    and r: "map_of t ''recurring'' = Some r"
    and run: "next_recurring L now hex (Parsed data) tid = (effs, Inr (t', nt))"
  shows "map_of nt ''next_due_at''
           = Some (JStr (isoformat L
                (now 2 + (if r = JStr ''daily'' then 86400000000
                          else if r = JStr ''weekly'' then 7 * 86400000000
                          else if r = JStr ''monthly'' then 30 * 86400000000
                          else 0)) @ ''Z''))"
proof -
  have nt: "nt = next_occurrence L now hex r
                   (AList.update ''progress'' (JInt 100)
                     (AList.update ''completed_at'' (stamp L (now 0))
                       (AList.update ''status'' (JStr ''completed'') t)))"
    using found r run
    by (auto simp: next_recurring_def load_data1_found[OF found] Let_def
          split: if_splits sum.splits bool.splits)
  show ?thesis
    unfolding nt next_occurrence_fields
    by (simp add: stamp_def next_due_def timedelta_days_def timedelta_weeks_def)
qed

text \<open>Witness for C7: a daily task rolled over at noon is due at noon of the next day.\<close>

theorem next_recurring_due_witness:
  "find_task_by_id (ex_store [ex_recurring (JStr ''daily'') 100]) ''t1''
     = Inr (Some (0, ex_recurring (JStr ''daily'') 100))
   \<and> map_of (ex_recurring (JStr ''daily'') 100) ''recurring'' = Some (JStr ''daily'')
   \<and> (\<exists>effs t' nt.
         next_recurring ex_lib ex_now ex_hex (Parsed (ex_store [ex_recurring (JStr ''daily'') 100]))
             ''t1'' = (effs, Inr (t', nt))
       \<and> map_of nt ''next_due_at'' = Some (JStr ''2026-11-04T12:00:02+00:00Z''))"
proof -
  let ?b = "ex_recurring (JStr ''daily'') 100"
  have rb: "map_of ?b ''recurring'' = Some (JStr ''daily'')"
    and lt: "py_lt (get_or ?b ''progress'' (JInt 0)) (JInt 100) = Inr False"
    by (simp_all add: ex_recurring_def ex_task_def get_or_def)
  have ne: "JStr ''daily'' \<noteq> JStr ''none''" by simp
  note run = next_recurring_accepted[OF ex_recurring_found rb ne lt, of ex_lib ex_now ex_hex]
  have "isoformat ex_lib (ex_now 2 + 86400000000) @ ''Z'' = ''2026-11-04T12:00:02+00:00Z''"
    by (simp add: ex_defs)
  with next_recurring_due[OF ex_recurring_found rb run]
  have due: "map_of (next_occurrence ex_lib ex_now ex_hex (JStr ''daily'')
                  (AList.update ''progress'' (JInt 100)
                    (AList.update ''completed_at'' (stamp ex_lib (ex_now 0))
                      (AList.update ''status'' (JStr ''completed'') ?b)))) ''next_due_at''
           = Some (JStr ''2026-11-04T12:00:02+00:00Z'')"
    by simp
  show ?thesis
    by (intro conjI exI) (rule ex_recurring_found rb run due)+
qed





section \<open>The velocity report\<close>


















section \<open>The health check run twice\<close>

lemma le_append_string: "(s :: string) \<le> s @ t"
proof (cases t)
  case Nil
  then show ?thesis by simp
next
  case (Cons c cs)
  then have "(s, s @ t) \<in> lexord {(u, v). u < v}"
    by (simp add: lexord_append_rightI)
  then show ?thesis by (simp add: list_le_def list_less_def)
qed

lemma truthy_stamp: "truthy (stamp L t)"
  by (simp add: stamp_def)

lemma later_stamp:
  assumes "\<forall>i j. isoformat L (now1 i) @ ''Z'' \<le> isoformat L (now2 j)"
  shows "py_lt (JStr (isoformat L (now2 j))) (stamp L (now1 i)) = Inr False"
  using assms by (simp add: stamp_def not_less)

lemma later_old:
  assumes "\<forall>i j. isoformat L (now1 i) @ ''Z'' \<le> isoformat L (now2 j)"
    and "py_lt (JStr (isoformat L (now1 i))) v = Inr False"
  shows "py_lt (JStr (isoformat L (now2 j))) v = Inr False"
proof -
  from assms(2) obtain c where v: "v = JStr c" and c: "c \<le> isoformat L (now1 i)"
    by (cases v) (simp_all add: not_less)
  have "c \<le> isoformat L (now1 i) @ ''Z''"
    using c le_append_string[of "isoformat L (now1 i)" "''Z''"] by (rule order_trans)
  also have "\<dots> \<le> isoformat L (now2 j)" using assms(1) by blast
  finally show ?thesis using v by (simp add: not_less)
qed

lemma get_or_update: "get_or (AList.update k v t) x d = (if x = k then v else get_or t x d)"
  by (simp add: get_or_def update_conv')

lemma is_completed_update:
  "k \<noteq> ''status'' \<Longrightarrow> is_completed (AList.update k v t) = is_completed t"
  by (simp add: is_completed_def update_conv')

lemma time_anomaly_update:
  assumes "k \<noteq> ''estimate_minutes''" "k \<noteq> ''actual_minutes''"
  shows "time_anomaly (AList.update k v t) = time_anomaly t"
proof -
  have e: "get_or (AList.update k v t) ''estimate_minutes'' d = get_or t ''estimate_minutes'' d"
    and a: "get_or (AList.update k v t) ''actual_minutes'' d = get_or t ''actual_minutes'' d"
    for d
    using assms by (simp_all add: get_or_update)
  show ?thesis unfolding time_anomaly_def e a by (rule refl)
qed

lemma check_task_settled:
  assumes "settled L now task"
  shows "\<exists>issues k'. check_task L now k (JObj task) = Inr (task, issues, [], k')"
proof -
  let ?tid = "get_or task ''id'' (JStr ''unknown'')"
  from assms obtain b where b: "time_anomaly task = Inr b"
    and n1: "\<not> (truthy (get_or task ''recurring'' JNull) \<and> \<not> truthy (get_or task ''goal_id'' JNull))"
    and c: "is_completed task \<Longrightarrow> py_lt (get_or task ''progress'' (JInt 100)) (JInt 100) = Inr False"
       "is_completed task \<Longrightarrow> truthy (get_or task ''completed_at'' JNull)"
       "\<And>j. is_completed task \<Longrightarrow>
           py_lt (JStr (isoformat L (now j))) (get_or task ''completed_at'' (JStr [])) = Inr False"
    by (auto simp: settled_def)
  have c1: "check1 ?tid (task, [], [], k) = (task, [], [], k)"
    using n1 by (simp add: check1_def)
  have c2: "check2 ?tid (task, [], [], k) = Inr (task, [], [], k)"
    using c(1) by (simp add: check2_def)
  have c3: "check3 L now ?tid (task, [], [], k) = (task, [], [], k)"
    using c(2) by (simp add: check3_def)
  have c4: "check4 ?tid (task, [], [], k)
              = Inr (task, if b then [TimeAnomaly ?tid] else [], [], k)"
    using b by (simp add: check4_def)
  have c5: "\<exists>k'. check5 L now ?tid (task, iss, [], k) = Inr (task, iss, [], k')" for iss
    using c(3) by (simp add: check5_def)
  from c5 obtain k' where "check5 L now ?tid (task, if b then [TimeAnomaly ?tid] else [], [], k)
              = Inr (task, if b then [TimeAnomaly ?tid] else [], [], k')"
    by blast
  then show ?thesis
    by (simp add: check_task_def Let_def c1 c2 c3 c4)
qed

lemma check1_cases:
  assumes "check1 tid (t, i, f, k) = (t', i', f', k')"
  shows "k' = k \<and> ((t' = t \<and> f' = f
                     \<and> \<not> (truthy (get_or t ''recurring'' JNull)
                          \<and> \<not> truthy (get_or t ''goal_id'' JNull)))
                  \<or> (t' = AList.update ''recurring'' JNull t \<and> f' \<noteq> []))"
  using assms by (auto simp: check1_def split: if_splits)

lemma check2_cases:
  assumes "check2 tid (t, i, f, k) = Inr (t', i', f', k')"
  shows "k' = k \<and> ((t' = t \<and> f' = f
                     \<and> (is_completed t \<longrightarrow>
                           py_lt (get_or t ''progress'' (JInt 100)) (JInt 100) = Inr False))
                  \<or> (t' = AList.update ''progress'' (JInt 100) t \<and> f' \<noteq> []))"
  using assms by (auto simp: check2_def split: if_splits sum.splits bool.splits)

lemma check3_cases:
  assumes "check3 L now tid (t, i, f, k) = (t', i', f', k')"
  shows "(t' = t \<and> f' = f \<and> k' = k
            \<and> (is_completed t \<longrightarrow> truthy (get_or t ''completed_at'' JNull)))
       \<or> (t' = AList.update ''completed_at'' (stamp L (now k)) t \<and> f' \<noteq> []
            \<and> is_completed t \<and> \<not> truthy (get_or t ''completed_at'' JNull))"
  using assms by (auto simp: check3_def split: if_splits)

lemma check4_cases:
  assumes "check4 tid (t, i, f, k) = Inr (t', i', f', k')"
  shows "t' = t \<and> f' = f \<and> k' = k \<and> (\<exists>b. time_anomaly t = Inr b)"
  using assms by (auto simp: check4_def split: sum.splits bool.splits)

lemma check5_cases:
  assumes "check5 L now tid (t, i, f, k) = Inr (t', i', f', k')"
  shows "(t' = t \<and> f' = f
            \<and> (is_completed t \<longrightarrow>
                  py_lt (JStr (isoformat L (now k))) (get_or t ''completed_at'' (JStr []))
                    = Inr False))
       \<or> (t' = AList.update ''completed_at'' (stamp L (now (Suc k))) t \<and> f' \<noteq> [])"
  using assms by (auto simp: check5_def split: if_splits sum.splits bool.splits)

lemma check_task_settles:
  assumes later: "\<forall>i j. isoformat L (now1 i) @ ''Z'' \<le> isoformat L (now2 j)"
    and run: "check_task L now1 k (JObj task) = Inr (task', issues, fixes, k')"
  shows "settled L now2 task' \<and> (fixes = [] \<longrightarrow> task' = task)"
proof -
  let ?tid = "get_or task ''id'' (JStr ''unknown'')"
  obtain t1 i1 f1 k1 where s1: "check1 ?tid (task, [], [], k) = (t1, i1, f1, k1)"
    by (metis prod_cases4)
  from run s1 obtain t2 i2 f2 k2 where s2: "check2 ?tid (t1, i1, f1, k1) = Inr (t2, i2, f2, k2)"
    by (auto simp: check_task_def Let_def split: sum.splits)
  obtain t3 i3 f3 k3 where s3: "check3 L now1 ?tid (t2, i2, f2, k2) = (t3, i3, f3, k3)"
    by (metis prod_cases4)
  from run s1 s2 s3 obtain t4 i4 f4 k4 where
    s4: "check4 ?tid (t3, i3, f3, k3) = Inr (t4, i4, f4, k4)"
    by (auto simp: check_task_def Let_def split: sum.splits)
  from run s1 s2 s3 s4 have
    s5: "check5 L now1 ?tid (t4, i4, f4, k4) = Inr (task', issues, fixes, k')"
    by (simp add: check_task_def Let_def)
  let ?A = "\<lambda>t. \<not> (truthy (get_or t ''recurring'' JNull) \<and> \<not> truthy (get_or t ''goal_id'' JNull))"
  let ?B = "\<lambda>t. is_completed t \<longrightarrow> py_lt (get_or t ''progress'' (JInt 100)) (JInt 100) = Inr False"
  let ?C = "\<lambda>t. is_completed t \<longrightarrow> truthy (get_or t ''completed_at'' JNull)"
  have I1: "?A t1 \<and> (f1 = [] \<longrightarrow> t1 = task)"
    using check1_cases[OF s1] by (auto simp: get_or_update)
  have I2: "?A t2 \<and> ?B t2 \<and> (f2 = [] \<longrightarrow> t2 = task)"
    using check2_cases[OF s2] I1 by (auto simp: get_or_update is_completed_update)
  have I3: "?A t3 \<and> ?B t3 \<and> ?C t3 \<and> (f3 = [] \<longrightarrow> t3 = task)"
    using check3_cases[OF s3] I2 by (auto simp: get_or_update is_completed_update truthy_stamp)
  have I4: "t4 = t3 \<and> f4 = f3 \<and> (\<exists>b. time_anomaly t3 = Inr b)"
    using check4_cases[OF s4] by simp
  have E: "is_completed task' \<longrightarrow>
             (\<forall>j. py_lt (JStr (isoformat L (now2 j))) (get_or task' ''completed_at'' (JStr []))
                     = Inr False)"
    using check5_cases[OF s5] later_stamp[OF later] later_old[OF later]
    by (auto simp: get_or_update is_completed_update)
  have I5: "?A task' \<and> ?B task' \<and> ?C task' \<and> (\<exists>b. time_anomaly task' = Inr b)
              \<and> (fixes = [] \<longrightarrow> task' = task)"
    using check5_cases[OF s5] I3 I4
    by (auto simp: get_or_update is_completed_update truthy_stamp time_anomaly_update)
  show ?thesis
    unfolding settled_def using I5 E by blast
qed

lemma check_task_JObj: "check_task L now k t = Inr r \<Longrightarrow> \<exists>task. t = JObj task"
  by (cases t) (simp_all add: check_task_def)

lemma health_loop_settles:
  assumes later: "\<forall>i j. isoformat L (now1 i) @ ''Z'' \<le> isoformat L (now2 j)"
  shows "health_loop L now1 k xs = Inr (xs', issues, fxs, k') \<Longrightarrow>
           list_all (\<lambda>x. \<exists>t. x = JObj t \<and> settled L now2 t) xs' \<and> (fxs = [] \<longrightarrow> xs' = xs)"
proof (induction xs arbitrary: k xs' issues fxs k')
  case Nil
  then show ?case by simp
next
  case (Cons x xs)
  from Cons.prems obtain t' i1 f1 k1 ys i2 f2 where
    head: "check_task L now1 k x = Inr (t', i1, f1, k1)"
    and tail: "health_loop L now1 k1 xs = Inr (ys, i2, f2, k')"
    and res: "xs' = JObj t' # ys" "fxs = f1 @ f2"
    by (auto split: sum.splits prod.splits)
  from check_task_JObj[OF head] obtain t where x: "x = JObj t" by blast
  from check_task_settles[OF later head[unfolded x]] Cons.IH[OF tail] res x
  show ?case by simp
qed

lemma health_loop_settled:
  "list_all (\<lambda>x. \<exists>t. x = JObj t \<and> settled L now t) xs \<Longrightarrow>
     \<exists>issues k'. health_loop L now k xs = Inr (xs, issues, [], k')"
proof (induction xs arbitrary: k)
  case Nil
  then show ?case by simp
next
  case (Cons x xs)
  then obtain t where x: "x = JObj t" and st: "settled L now t"
    and rest: "list_all (\<lambda>x. \<exists>t. x = JObj t \<and> settled L now t) xs"
    by auto
  from check_task_settled[OF st] obtain i1 k1 where
    head: "check_task L now k (JObj t) = Inr (t, i1, [], k1)" by blast
  from Cons.IH[OF rest] obtain i2 k2 where
    tail: "health_loop L now k1 xs = Inr (xs, i2, [], k2)" by blast
  show ?case using head tail x by simp
qed

lemma health_loop_iter_list:
  assumes "py_iter ts = Inr xs" and "health_loop L now k xs = Inr r" and "xs \<noteq> []"
  shows "ts = JArr xs"
proof (cases ts)
  case (JObj kvs)
  with assms(1,3) obtain kv rest where "xs = JStr (fst kv) # rest"
    by (cases kvs) auto
  with assms(2) show ?thesis by (simp add: check_task_def)
next
  case (JStr s)
  with assms(1,3) obtain c rest where "xs = JStr [c] # rest"
    by (cases s) auto
  with assms(2) show ?thesis by (simp add: check_task_def)
qed (use assms in simp_all)

lemma health_check_second_run:
  assumes later: "\<forall>i j. isoformat L (now1 i) @ ''Z'' \<le> isoformat L (now2 j)"
    and run1: "health_check L now1 f = (effs1, Inr (issues1, fixes1))"
  shows "\<exists>effs2 issues2.
           health_check L now2 (apply_effects f effs1) = (effs2, Inr (issues2, []))"
proof -
  from run1 obtain data ts xs xs' k where
    ld: "load_data2 f = Inr data" and ts: "py_getitem data ''tasks'' = Inr ts"
    and xs: "py_iter ts = Inr xs"
    and loop: "health_loop L now1 0 xs = Inr (xs', issues1, fixes1, k)"
    and effs: "effs1 = (if fixes1 \<noteq> [] then [Save (set_tasks data xs')] else [])
                 @ [log_to_wal L now1 (Suc k) ''HEALTH_CHECK''
                      [(''issues_found'', JInt (int (length issues1))),
                       (''auto_fixes_applied'', JInt (int (length fixes1))),
                       (''timestamp'', JStr (isoformat L (now1 k)))]]"
    by (auto simp: health_check_def split: sum.splits prod.splits)
  from health_loop_settles[OF later loop] have
    settled: "list_all (\<lambda>x. \<exists>t. x = JObj t \<and> settled L now2 t) xs'"
    and same: "fixes1 = [] \<longrightarrow> xs' = xs" by simp_all
  from health_loop_settled[OF settled] obtain issues2 k2 where
    loop2: "health_loop L now2 0 xs' = Inr (xs', issues2, [], k2)" by blast
  show ?thesis
  proof (cases "fixes1 = []")
    case True
    then have "apply_effects f effs1 = f" by (simp add: effs apply_effects_def log_to_wal_def)
    moreover have "xs' = xs" using same True by simp
    ultimately show ?thesis
      using ld ts xs loop2 by (simp add: health_check_def)
  next
    case False
    then have "xs \<noteq> []" using loop by auto
    from health_loop_iter_list[OF xs loop this] have tsl: "ts = JArr xs" .
    from ts obtain kvs where d: "data = JObj kvs" and m: "map_of kvs ''tasks'' = Some (JArr xs)"
      unfolding tsl by (cases data) (auto split: option.splits)
    have saved: "apply_effects f effs1 = Parsed (set_tasks data xs')"
      using False by (simp add: effs apply_effects_def log_to_wal_def)
    have "py_getitem (set_tasks data xs') ''tasks'' = Inr (JArr xs')"
      using d m by (simp add: set_tasks_def update_conv')
    then show ?thesis
      using loop2 by (simp add: health_check_def saved)
  qed
qed

lemma py_lt_str_ok:
  "(\<exists>b. py_lt (JStr s) v = Inr b) = (\<exists>c. v = JStr c)"
  by (cases v) auto

lemma check2_ok:
  "(\<exists>r. check2 tid (t, i, f, k) = Inr r)
     = (is_completed t \<longrightarrow> (\<exists>b. py_lt (get_or t ''progress'' (JInt 100)) (JInt 100) = Inr b))"
  by (auto simp: check2_def split: sum.splits bool.splits)

lemma check4_ok:
  "(\<exists>r. check4 tid (t, i, f, k) = Inr r) = (\<exists>b. time_anomaly t = Inr b)"
  by (auto simp: check4_def split: sum.splits bool.splits)

lemma check5_ok:
  "(\<exists>r. check5 L now tid (t, i, f, k) = Inr r)
     = (is_completed t \<longrightarrow> (\<exists>c. get_or t ''completed_at'' (JStr []) = JStr c))"
  using py_lt_str_ok[of "isoformat L (now k)" "get_or t ''completed_at'' (JStr [])"]
  by (auto simp: check5_def split: sum.splits bool.splits)

lemma check_task_ok:
  "(\<exists>r. check_task L now k (JObj task) = Inr r)
     = ((is_completed task \<longrightarrow>
           (\<exists>b. py_lt (get_or task ''progress'' (JInt 100)) (JInt 100) = Inr b)
         \<and> (truthy (get_or task ''completed_at'' JNull) \<longrightarrow>
               (\<exists>c. get_or task ''completed_at'' (JStr []) = JStr c)))
        \<and> (\<exists>b. time_anomaly task = Inr b))"
proof -
  let ?tid = "get_or task ''id'' (JStr ''unknown'')"
  obtain t1 i1 f1 k1 where s1: "check1 ?tid (task, [], [], k) = (t1, i1, f1, k1)"
    by (metis prod_cases4)
  have p1: "is_completed t1 = is_completed task"
    "get_or t1 ''progress'' (JInt 100) = get_or task ''progress'' (JInt 100)"
    "get_or t1 ''completed_at'' d = get_or task ''completed_at'' d"
    "time_anomaly t1 = time_anomaly task" for d
    using check1_cases[OF s1]
    by (auto simp: get_or_update is_completed_update time_anomaly_update)
  show ?thesis
  proof (cases "\<exists>r. check2 ?tid (t1, i1, f1, k1) = Inr r")
    case False
    then have "\<not> (\<exists>r. check_task L now k (JObj task) = Inr r)"
      using s1 by (auto simp: check_task_def Let_def split: sum.splits)
    moreover from False have "\<not> (is_completed t1 \<longrightarrow>
        (\<exists>b. py_lt (get_or t1 ''progress'' (JInt 100)) (JInt 100) = Inr b))"
      unfolding check2_ok .
    ultimately show ?thesis using p1 by auto
  next
    case True
    then obtain t2 i2 f2 k2 where s2: "check2 ?tid (t1, i1, f1, k1) = Inr (t2, i2, f2, k2)"
      by (metis prod_cases4)
    have p2: "is_completed t2 = is_completed task"
      "get_or t2 ''completed_at'' d = get_or task ''completed_at'' d"
      "time_anomaly t2 = time_anomaly task" for d
      using check2_cases[OF s2] p1
      by (auto simp: get_or_update is_completed_update time_anomaly_update)
    obtain t3 i3 f3 k3 where s3: "check3 L now ?tid (t2, i2, f2, k2) = (t3, i3, f3, k3)"
      by (metis prod_cases4)
    have p3: "is_completed t3 = is_completed task" "time_anomaly t3 = time_anomaly task"
      "is_completed task \<Longrightarrow>
         (\<exists>c. get_or t3 ''completed_at'' (JStr []) = JStr c)
           = (truthy (get_or task ''completed_at'' JNull) \<longrightarrow>
               (\<exists>c. get_or task ''completed_at'' (JStr []) = JStr c))"
      using check3_cases[OF s3] p2
      by (auto simp: get_or_update is_completed_update time_anomaly_update stamp_def)
    have "(\<exists>r. check_task L now k (JObj task) = Inr r)
            = ((\<exists>b. time_anomaly t3 = Inr b)
               \<and> (is_completed t3 \<longrightarrow> (\<exists>c. get_or t3 ''completed_at'' (JStr []) = JStr c)))"
    proof (cases "\<exists>r. check4 ?tid (t3, i3, f3, k3) = Inr r")
      case False
      then have "\<not> (\<exists>r. check_task L now k (JObj task) = Inr r)"
        using s1 s2 s3 by (auto simp: check_task_def Let_def split: sum.splits)
      moreover from False have "\<not> (\<exists>b. time_anomaly t3 = Inr b)"
        unfolding check4_ok .
      ultimately show ?thesis by auto
    next
      case True
      then obtain t4 i4 f4 k4 where s4: "check4 ?tid (t3, i3, f3, k3) = Inr (t4, i4, f4, k4)"
        by (metis prod_cases4)
      have "(\<exists>r. check_task L now k (JObj task) = Inr r)
              = (\<exists>r. check5 L now ?tid (t4, i4, f4, k4) = Inr r)"
        using s1 s2 s3 s4 by (simp add: check_task_def Let_def)
      moreover have "t4 = t3" "\<exists>b. time_anomaly t3 = Inr b"
        using check4_cases[OF s4] by simp_all
      ultimately show ?thesis
        unfolding check5_ok by simp
    qed
    moreover from True have "is_completed t1 \<longrightarrow>
        (\<exists>b. py_lt (get_or t1 ''progress'' (JInt 100)) (JInt 100) = Inr b)"
      unfolding check2_ok .
    ultimately show ?thesis using p1 p3 by auto
  qed
qed

lemma check_task_clock_free:
  assumes "check_task L now k t = Inr r"
  shows "\<exists>r'. check_task L now' k' t = Inr r'"
proof -
  from check_task_JObj[OF assms] obtain task where t: "t = JObj task" by blast
  have "\<exists>r. check_task L now k (JObj task) = Inr r" using assms t by blast
  then have "\<exists>r. check_task L now' k' (JObj task) = Inr r"
    unfolding check_task_ok .
  then show ?thesis using t by simp
qed

lemma health_loop_clock_free:
  "health_loop L now k xs = Inr r \<Longrightarrow> \<exists>r'. health_loop L now' k' xs = Inr r'"
proof (induction xs arbitrary: k k' r)
  case Nil
  then show ?case by simp
next
  case (Cons x xs)
  from Cons.prems obtain h k1 r1 where
    head: "check_task L now k x = Inr h" and k1: "k1 = snd (snd (snd h))"
    and tail: "health_loop L now k1 xs = Inr r1"
    by (auto split: sum.splits prod.splits)
  from check_task_clock_free[OF head] obtain t' i' f' k1' where
    head': "check_task L now' k' x = Inr (t', i', f', k1')"
    by (metis prod_cases4)
  from Cons.IH[OF tail] obtain r1' where "health_loop L now' k1' xs = Inr r1'" by blast
  then show ?case using head' by (cases r1') (auto split: prod.splits)
qed

lemma health_check_clock_free:
  assumes "health_check L now f = (effs, Inr rep)"
  shows "\<exists>effs' rep'. health_check L now' f = (effs', Inr rep')"
proof -
  from assms obtain data ts xs r where
    ld: "load_data2 f = Inr data" "py_getitem data ''tasks'' = Inr ts" "py_iter ts = Inr xs"
    and loop: "health_loop L now 0 xs = Inr r"
    by (auto simp: health_check_def split: sum.splits prod.splits)
  from health_loop_clock_free[OF loop] obtain r' where "health_loop L now' 0 xs = Inr r'"
    by blast
  then show ?thesis
    using ld by (cases r') (simp add: health_check_def)
qed

lemma health_check_raises:
  "health_check L now f = (effs, Inl e) \<Longrightarrow> effs = []"
  by (auto simp: health_check_def split: sum.splits prod.splits)

lemma health_check_no_fix_effects:
  "health_check L now f = (effs, Inr (issues, [])) \<Longrightarrow> Save d \<notin> set effs"
  by (auto simp: health_check_def log_to_wal_def split: sum.splits prod.splits)

text \<open>
  C5. Let a second run of the health check follow a first one on the store the first left,
  at clock readings later than any stamp of the first (\<^verbatim>\<open>isoformat() + "Z"\<close> of a reading
  of the first run is not above \<^verbatim>\<open>isoformat()\<close> of a reading of the second). Then the
  second run applies no fix: it does not save the store, a report it returns has an empty
  list of fixes, and it returns a report whenever the first run did. (On a store on which
  the scan raises, both runs raise and neither writes.)
\<close>

theorem health_check_idempotent:
  assumes later: "\<forall>i j. isoformat L (now1 i) @ ''Z'' \<le> isoformat L (now2 j)"
    and run1: "health_check L now1 f = (effs1, r1)"
    and run2: "health_check L now2 (apply_effects f effs1) = (effs2, r2)"
  shows "(\<forall>d. Save d \<notin> set effs2)
       \<and> (\<forall>issues2 fixes2. r2 = Inr (issues2, fixes2) \<longrightarrow> fixes2 = [])
       \<and> ((\<exists>rep1. r1 = Inr rep1) \<longrightarrow> (\<exists>issues2. r2 = Inr (issues2, [])))"
proof (cases r1)
  case (Inr rep1)
  obtain issues1 fixes1 where rep1: "rep1 = (issues1, fixes1)" by (cases rep1)
  from health_check_second_run[OF later run1[unfolded Inr rep1]]
  obtain e2 issues2 where
    second: "health_check L now2 (apply_effects f effs1) = (e2, Inr (issues2, []))" by blast
  with run2 have r2: "r2 = Inr (issues2, [])" and e2: "effs2 = e2" by simp_all
  have "Save d \<notin> set effs2" for d
    using health_check_no_fix_effects[OF second] e2 by simp
  then show ?thesis using r2 by simp
next
  case (Inl e)
  then have "effs1 = []" using run1 health_check_raises by blast
  then have same: "apply_effects f effs1 = f" by (simp add: apply_effects_def)
  have "\<exists>e2. r2 = Inl e2"
  proof (cases r2)
    case (Inr rep2)
    from health_check_clock_free[OF run2[unfolded same Inr], where now' = now1] run1 Inl
    show ?thesis by simp
  qed simp
  then obtain e2 where r2: "r2 = Inl e2" by blast
  then have "effs2 = []" using run2 health_check_raises by blast
  then show ?thesis using r2 Inl by simp
qed

lemma ex_now_window: "ex_now i < ex_t0 + timedelta_days 1"
  by (simp add: ex_now_def timedelta_days_def min_def)

lemma ex_next_day_window: "\<not> ex_next_day j < ex_t0 + timedelta_days 1"
  by (simp add: ex_next_day_def)

text \<open>
  Witness for C5: a completed task at 40 percent without \<^verbatim>\<open>completed_at\<close> is repaired by
  the first run; a run on the next day finds nothing to fix and does not save.
\<close>

theorem health_check_idempotent_witness:
  "(\<forall>i j. isoformat ex_lib (ex_now i) @ ''Z'' \<le> isoformat ex_lib (ex_next_day j))
   \<and> health_check ex_lib ex_now (Parsed (ex_store [ex_task ''completed'' 40]))
       = ([Save (ex_store [ex_task ''completed'' 100
                            @ [(''completed_at'', JStr ''2026-11-03T12:00:00+00:00Z'')]]),
           WalAppend ''2026-11-03'' ''2026-11-03T12:00:03+00:00'' ''HEALTH_CHECK''
             [(''issues_found'', JInt 2), (''auto_fixes_applied'', JInt 2),
              (''timestamp'', JStr ''2026-11-03T12:00:02+00:00'')]],
          Inr ([ImpossibleState (JStr ''t1''), InconsistentCompletion (JStr ''t1'')],
               [SetProgress100 (JStr ''t1''), AddedCompletedAt (JStr ''t1'')]))
   \<and> health_check ex_lib ex_next_day
         (Parsed (ex_store [ex_task ''completed'' 100
                             @ [(''completed_at'', JStr ''2026-11-03T12:00:00+00:00Z'')]]))
       = ([WalAppend ''2026-11-04'' ''2026-11-04T12:00:02+00:00'' ''HEALTH_CHECK''
             [(''issues_found'', JInt 0), (''auto_fixes_applied'', JInt 0),
              (''timestamp'', JStr ''2026-11-04T12:00:01+00:00'')]],
          Inr ([], []))"
proof -
  let ?S = "ex_store [ex_task ''completed'' 40]"
  let ?S' = "ex_store [ex_task ''completed'' 100
                        @ [(''completed_at'', JStr ''2026-11-03T12:00:00+00:00Z'')]]"
  let ?W1 = "WalAppend ''2026-11-03'' ''2026-11-03T12:00:03+00:00'' ''HEALTH_CHECK''
             [(''issues_found'', JInt 2), (''auto_fixes_applied'', JInt 2),
              (''timestamp'', JStr ''2026-11-03T12:00:02+00:00'')]"
  have later: "\<forall>i j. isoformat ex_lib (ex_now i) @ ''Z'' \<le> isoformat ex_lib (ex_next_day j)"
    by (simp add: ex_lib_def ex_now_window ex_next_day_window)
  have run1: "health_check ex_lib ex_now (Parsed ?S)
       = ([Save ?S', ?W1],
          Inr ([ImpossibleState (JStr ''t1''), InconsistentCompletion (JStr ''t1'')],
               [SetProgress100 (JStr ''t1''), AddedCompletedAt (JStr ''t1'')]))"
    by (simp add: health_check_def check_task_def check1_def check2_def check3_def check4_def
          check5_def time_anomaly_def is_completed_def get_or_def set_tasks_def log_to_wal_def
          py_truediv_def Let_def ex_defs)
  have saved: "apply_effects (Parsed ?S) [Save ?S', ?W1] = Parsed ?S'"
    by (simp add: apply_effects_def)
  obtain effs2 r2 where run2: "health_check ex_lib ex_next_day (Parsed ?S') = (effs2, r2)"
    by (cases "health_check ex_lib ex_next_day (Parsed ?S')")
  from health_check_idempotent[OF later run1 run2[folded saved]]
  obtain issues2 where r2: "r2 = Inr (issues2, [])" and nosave: "\<forall>d. Save d \<notin> set effs2"
    by blast
  have "effs2 = [WalAppend ''2026-11-04'' ''2026-11-04T12:00:02+00:00'' ''HEALTH_CHECK''
             [(''issues_found'', JInt 0), (''auto_fixes_applied'', JInt 0),
              (''timestamp'', JStr ''2026-11-04T12:00:01+00:00'')]] \<and> issues2 = []"
    using run2 r2
    by (simp add: health_check_def check_task_def check1_def check2_def check3_def check4_def
          check5_def time_anomaly_def is_completed_def get_or_def set_tasks_def log_to_wal_def
          py_truediv_def Let_def ex_defs ex_next_day_def split: if_splits)
  with run2 r2 have run2': "health_check ex_lib ex_next_day (Parsed ?S')
       = ([WalAppend ''2026-11-04'' ''2026-11-04T12:00:02+00:00'' ''HEALTH_CHECK''
             [(''issues_found'', JInt 0), (''auto_fixes_applied'', JInt 0),
              (''timestamp'', JStr ''2026-11-04T12:00:01+00:00'')]],
          Inr ([], []))"
    by simp
  show ?thesis using later run1 run2' by (intro conjI)
qed

end
